theory Spec2Isabelle
  imports Main
begin

section \<open>Python values used by bseuParser.py\<close>

text \<open>
  A Python \<open>str\<close> is a sequence of Unicode code points, so it is modelled as a list of
  natural numbers (the labels of the program are Cyrillic, beyond one byte each).
  ASCII literals of the source are written with \<open>py\<close>.
\<close>

type_synonym pystr = "nat list"

definition py :: "string \<Rightarrow> pystr" where
  "py s = map of_char s"

datatype error = AttributeError | KeyError | IndexError | TypeError | ValueError
  | TransportError | OSError

text \<open>Sequencing of computations that may raise: the first exception propagates.\<close>

fun ebind :: "error + 'a \<Rightarrow> ('a \<Rightarrow> error + 'b) \<Rightarrow> error + 'b" where
  "ebind (Inl e) f = Inl e"
| "ebind (Inr x) f = f x"

text \<open>\<open>xs[i]\<close> for a literal index \<open>i \<ge> 0\<close>: IndexError out of range.\<close>

definition getitem :: "'a list \<Rightarrow> nat \<Rightarrow> error + 'a" where
  "getitem xs i = (if i < length xs then Inr (xs ! i) else Inl IndexError)"

text \<open>\<open>xs.index(x)\<close>: position of the first occurrence, ValueError when there is none.\<close>

fun list_index :: "'a list \<Rightarrow> 'a \<Rightarrow> error + nat" where
  "list_index [] x = Inl ValueError"
| "list_index (y # ys) x =
     (if y = x then Inr 0 else ebind (list_index ys x) (\<lambda>i. Inr (Suc i)))"

text \<open>
  \<open>str.isspace\<close> on one code point, the test \<open>str.split()\<close> and \<open>str.strip()\<close> use
  (the code points CPython lists as Unicode whitespace).
\<close>

definition isspace :: "nat \<Rightarrow> bool" where
  "isspace c \<longleftrightarrow>
     (0x09 \<le> c \<and> c \<le> 0x0D) \<or> (0x1C \<le> c \<and> c \<le> 0x20) \<or> c = 0x85 \<or> c = 0xA0 \<or>
     c = 0x1680 \<or> (0x2000 \<le> c \<and> c \<le> 0x200A) \<or> c = 0x2028 \<or> c = 0x2029 \<or>
     c = 0x202F \<or> c = 0x205F \<or> c = 0x3000"

text \<open>
  \<open>s.split()\<close> without arguments: skip a run of whitespace, take the run of
  non-whitespace that follows as one token, and go on behind it.
\<close>

function str_split :: "pystr \<Rightarrow> pystr list" where
  "str_split s =
     (let rest = dropWhile isspace s in
      if rest = [] then []
      else takeWhile (\<lambda>c. \<not> isspace c) rest # str_split (dropWhile (\<lambda>c. \<not> isspace c) rest))"
  by pat_completeness auto
termination
proof (relation "measure length")
  fix s rest :: pystr
  assume r: "rest = dropWhile isspace s" and ne: "rest \<noteq> []"
  from ne obtain c cs where rc: "rest = c # cs"
    by (cases rest) auto
  from r rc have "dropWhile isspace s = c # cs"
    by simp
  then have c: "\<not> isspace c"
    by (simp add: dropWhile_eq_Cons_conv)
  have "length (dropWhile (\<lambda>c. \<not> isspace c) rest) \<le> length cs"
    using c rc by (simp add: length_dropWhile_le)
  moreover have "length rest \<le> length s"
    unfolding r by (rule length_dropWhile_le)
  ultimately show "(dropWhile (\<lambda>c. \<not> isspace c) rest, s) \<in> measure length"
    using rc by simp
qed simp

declare str_split.simps [simp del]

text \<open>\<open>sep.join(xs)\<close>.\<close>

fun str_join :: "pystr \<Rightarrow> pystr list \<Rightarrow> pystr" where
  "str_join sep [] = []"
| "str_join sep [x] = x"
| "str_join sep (x # y # ys) = x @ sep @ str_join sep (y # ys)"

text \<open>\<open>s.strip()\<close>: whitespace removed at both ends.\<close>

definition str_strip :: "pystr \<Rightarrow> pystr" where
  "str_strip s = rev (dropWhile isspace (rev (dropWhile isspace s)))"

text \<open>
  \<open>str.lower\<close> is the interpreter's full Unicode lower-casing. The program's functions
  take it as the parameter \<open>lower\<close>; \<open>str_lower\<close> is that function on the code points
  of ASCII and of the Cyrillic block U+0400 to U+045F, the alphabets of the labels, and
  leaves every other code point as it is.
\<close>

definition lower_cp :: "nat \<Rightarrow> nat" where
  "lower_cp c =
     (if 0x41 \<le> c \<and> c \<le> 0x5A then c + 0x20
      else if 0x400 \<le> c \<and> c \<le> 0x40F then c + 0x50
      else if 0x410 \<le> c \<and> c \<le> 0x42F then c + 0x20
      else c)"

definition str_lower :: "pystr \<Rightarrow> pystr" where
  "str_lower s = map lower_cp s"

text \<open>
  A Python object stored in a result dict: a \<open>str\<close> or an \<open>int\<close>. A dict keeps its
  keys in insertion order, so it is an association list; \<open>d.update(other)\<close> replaces the
  value of a key that is present and appends a new key at the end.
\<close>

datatype pyval = PStr pystr | PInt int

type_synonym pydict = "(string \<times> pyval) list"

fun dict_setitem :: "string \<Rightarrow> pyval \<Rightarrow> pydict \<Rightarrow> pydict" where
  "dict_setitem k v [] = [(k, v)]"
| "dict_setitem k v ((k', v') # d) =
     (if k' = k then (k, v) # d else (k', v') # dict_setitem k v d)"

definition dict_update :: "pydict \<Rightarrow> pydict \<Rightarrow> pydict" where
  "dict_update d other = fold (\<lambda>(k, v). dict_setitem k v) other d"

section \<open>Transformers\<close>

definition transform_full_name :: "pystr \<Rightarrow> error + pydict" where
  "transform_full_name full_name =
     (let names = str_split full_name in
      ebind (if length names = 2 then Inr (names @ [[]])
             else ebind (getitem names 0) (\<lambda>n0.
                  ebind (getitem names 1) (\<lambda>n1.
                  Inr [n0, n1, str_join (py '' '') (drop 2 names)])))
        (\<lambda>names.
          ebind (getitem names 0) (\<lambda>n0.
          ebind (getitem names 1) (\<lambda>n1.
          ebind (getitem names 2) (\<lambda>n2.
          Inr [(''last_name'', PStr n0),
               (''first_name'', PStr n1),
               (''middle_name'', PStr n2)])))))"

definition degrees :: "pystr list" where
  "degrees =
     [[0x43F, 0x440, 0x435, 0x43F, 0x43E, 0x434, 0x430, 0x432, 0x430, 0x442, 0x435, 0x43B,
       0x44C],
      [0x441, 0x442, 0x430, 0x440, 0x448, 0x438, 0x439, 0x20, 0x43F, 0x440, 0x435, 0x43F,
       0x43E, 0x434, 0x430, 0x432, 0x430, 0x442, 0x435, 0x43B, 0x44C],
      [0x434, 0x43E, 0x446, 0x435, 0x43D, 0x442],
      [0x43F, 0x440, 0x43E, 0x444, 0x435, 0x441, 0x441, 0x43E, 0x440],
      [0x430, 0x441, 0x441, 0x438, 0x441, 0x442, 0x435, 0x43D, 0x442]]"

definition transform_degree :: "(pystr \<Rightarrow> pystr) \<Rightarrow> pystr \<Rightarrow> error + nat" where
  "transform_degree lower degree_string =
     (if lower degree_string \<in> set degrees
      then list_index degrees (lower degree_string)
      else Inr (length degrees))"

section \<open>Parsed documents\<close>

text \<open>
  What \<open>BeautifulSoup(response.content, 'html.parser')\<close> gives the program: a tree of
  elements (a name, the attributes by name, the child nodes), of text nodes and of
  comments. A comment is a string like a text node (it has \<open>partition\<close>), but it is no
  part of the \<open>text\<close> of an element. The document itself is an element whose children
  are the top-level nodes. Tag names are those the HTML parser produces: they start
  with an ASCII letter.
\<close>

datatype tag = Tag (name: pystr) (attrs: "(pystr \<times> pystr) list") (contents: "node list")
  and node = Element tag | NavigableString pystr | Comment pystr

fun first :: "'a list \<Rightarrow> 'a option" where
  "first [] = None"
| "first (x # xs) = Some x"

text \<open>
  The nodes below an element in document order (an element before its children, the
  children before the element's later siblings), each with its \<open>next_sibling\<close>.
\<close>

fun descendants :: "node list \<Rightarrow> (node \<times> node option) list" where
  "descendants [] = []"
| "descendants (Element (Tag n a cs) # rest) =
     (Element (Tag n a cs), first rest) # descendants cs @ descendants rest"
| "descendants (NavigableString s # rest) =
     (NavigableString s, first rest) # descendants rest"
| "descendants (Comment s # rest) =
     (Comment s, first rest) # descendants rest"

fun tags_of :: "(node \<times> node option) list \<Rightarrow> (tag \<times> node option) list" where
  "tags_of [] = []"
| "tags_of ((Element e, sib) # ns) = (e, sib) # tags_of ns"
| "tags_of ((NavigableString s, sib) # ns) = tags_of ns"
| "tags_of ((Comment s, sib) # ns) = tags_of ns"

fun strings_of :: "(node \<times> node option) list \<Rightarrow> pystr list" where
  "strings_of [] = []"
| "strings_of ((Element e, sib) # ns) = strings_of ns"
| "strings_of ((NavigableString s, sib) # ns) = s # strings_of ns"
| "strings_of ((Comment s, sib) # ns) = strings_of ns"

text \<open>
  \<open>soup.find_all(name, attrs)\<close>: the elements below \<open>soup\<close> with that tag name whose
  attributes meet the criterion, in document order; \<open>soup.find(name, attrs)\<close>: the first
  of them, or None. \<open>find_all_sib\<close> keeps the next sibling of each, for \<open>.next_sibling\<close>.
\<close>

definition find_all_sib ::
  "pystr \<Rightarrow> ((pystr \<times> pystr) list \<Rightarrow> bool) \<Rightarrow> tag \<Rightarrow> (tag \<times> node option) list" where
  "find_all_sib nm crit soup =
     filter (\<lambda>(e, sib). name e = nm \<and> crit (attrs e)) (tags_of (descendants (contents soup)))"

definition find_all :: "pystr \<Rightarrow> ((pystr \<times> pystr) list \<Rightarrow> bool) \<Rightarrow> tag \<Rightarrow> tag list" where
  "find_all nm crit soup = map fst (find_all_sib nm crit soup)"

definition find :: "pystr \<Rightarrow> ((pystr \<times> pystr) list \<Rightarrow> bool) \<Rightarrow> tag \<Rightarrow> tag option" where
  "find nm crit soup = first (find_all nm crit soup)"

text \<open>
  The criteria the program uses. \<open>{'id': v}\<close>: the attribute is present and equal to
  \<open>v\<close>. This is the library's matching for a non-empty \<open>v\<close>, and the program passes
  \<open>Pages\<close> and \<open>persinfo\<close>; what an empty \<open>v\<close> matches is not modelled. \<open>href=True\<close>: the attribute is
  present. \<open>{'class': v}\<close>: \<open>class\<close> holds a whitespace-separated list of values, and it
  matches when one of them is \<open>v\<close> or the values joined by single spaces are \<open>v\<close>.
  No criterion (\<open>soup.img\<close>, \<open>soup.h4\<close>, \<open>p.br\<close>): every element of that name.
\<close>

definition attr_is :: "pystr \<Rightarrow> pystr \<Rightarrow> (pystr \<times> pystr) list \<Rightarrow> bool" where
  "attr_is key v a \<longleftrightarrow> map_of a key = Some v"

definition attr_present :: "pystr \<Rightarrow> (pystr \<times> pystr) list \<Rightarrow> bool" where
  "attr_present key a \<longleftrightarrow> map_of a key \<noteq> None"

definition class_is :: "pystr \<Rightarrow> (pystr \<times> pystr) list \<Rightarrow> bool" where
  "class_is v a \<longleftrightarrow>
     (case map_of a (py ''class'') of
        None \<Rightarrow> False
      | Some c \<Rightarrow> v \<in> set (str_split c) \<or> str_join (py '' '') (str_split c) = v)"

definition any_attrs :: "(pystr \<times> pystr) list \<Rightarrow> bool" where
  "any_attrs a \<longleftrightarrow> True"

text \<open>\<open>tag[key]\<close>: KeyError when the element has no such attribute.\<close>

definition tag_getitem :: "tag \<Rightarrow> pystr \<Rightarrow> error + pystr" where
  "tag_getitem e key = (case map_of (attrs e) key of None \<Rightarrow> Inl KeyError | Some v \<Rightarrow> Inr v)"

text \<open>\<open>tag.text\<close>: the text nodes below the element, concatenated; comments are left out.\<close>

definition text_of :: "tag \<Rightarrow> pystr" where
  "text_of e = concat (strings_of (descendants (contents e)))"

text \<open>An attribute access on None, the result of a \<open>find\<close> that found nothing.\<close>

definition not_None :: "'a option \<Rightarrow> error + 'a" where
  "not_None x = (case x of None \<Rightarrow> Inl AttributeError | Some y \<Rightarrow> Inr y)"

section \<open>Parsers\<close>

text \<open>The loop of \<open>parse_staff_links\<close> over the anchors found, appending to \<open>links\<close>.\<close>

fun append_hrefs :: "tag list \<Rightarrow> pystr list \<Rightarrow> error + pystr list" where
  "append_hrefs [] links = Inr links"
| "append_hrefs (a # as) links =
     ebind (tag_getitem a (py ''href'')) (\<lambda>href. append_hrefs as (links @ [href]))"

definition parse_staff_links :: "tag \<Rightarrow> pystr \<Rightarrow> error + pystr list" where
  "parse_staff_links soup div_id =
     ebind (not_None (find (py ''div'') (attr_is (py ''id'') div_id) soup)) (\<lambda>soup.
     append_hrefs (find_all (py ''a'') (attr_present (py ''href'')) soup) [])"

text \<open>\<open>s.partition(sep)[0]\<close> for a separator of one code point: what is before it.\<close>

definition partition_head :: "nat \<Rightarrow> pystr \<Rightarrow> pystr" where
  "partition_head sep s = takeWhile (\<lambda>c. c \<noteq> sep) s"

text \<open>
  \<open>parse_degree\<close> is the source's \<open>parse_degree_\<close>. It reads \<open>.br.next_sibling\<close> of the paragraph and calls \<open>partition\<close> on
  it. A text node or a comment is a \<open>str\<close>. An element has no such method: the attribute access is a
  search for a child tag named \<open>partition\<close>; it gives None, and calling None is a
  TypeError; or it gives that tag, and calling it is a search below it for tags named
  U+00A0, which finds none, so that \<open>[0]\<close> is an IndexError.
\<close>

definition parse_degree :: "tag \<Rightarrow> error + pystr" where
  "parse_degree soup =
     ebind (not_None (find (py ''p'') (class_is (py ''noIndnt'')) soup)) (\<lambda>p.
     ebind (not_None (first (find_all_sib (py ''br'') any_attrs p))) (\<lambda>(br, next_sibling).
     ebind (not_None next_sibling) (\<lambda>degree_string.
       case degree_string of
         NavigableString s \<Rightarrow> Inr (partition_head 0xA0 s)
       | Comment s \<Rightarrow> Inr (partition_head 0xA0 s)
       | Element e \<Rightarrow>
           (case find (py ''partition'') any_attrs e of
              None \<Rightarrow> Inl TypeError
            | Some q \<Rightarrow> Inl IndexError))))"

definition parse_personal_page :: "tag \<Rightarrow> pystr \<Rightarrow> error + (pystr \<times> pystr \<times> pystr)" where
  "parse_personal_page soup div_id =
     ebind (not_None (find (py ''div'') (attr_is (py ''id'') div_id) soup)) (\<lambda>soup.
     ebind (case find (py ''img'') any_attrs soup of
              Some img \<Rightarrow> tag_getitem img (py ''src'')
            | None \<Rightarrow> Inr []) (\<lambda>img.
     ebind (not_None (find (py ''h4'') any_attrs soup)) (\<lambda>h4.
     let full_name = text_of h4 in
     ebind (parse_degree soup) (\<lambda>degree_string.
     Inr (full_name, img, degree_string)))))"

section \<open>The world the program runs in\<close>

text \<open>
  The program asks the site for pages, prints to the console and writes a file.
  \<open>site\<close> is the answer of the network and of the HTML parser to a GET request: a
  parsed document, or the exception \<open>requests.get\<close> raises. It may depend on the
  requests made before, listed in \<open>requested\<close>. \<open>writable\<close> tells whether \<open>open(path, 'w')\<close>
  succeeds. \<open>files\<close> holds what \<open>json.dump\<close> was given for each file written: the
  list of records and the indentation.
\<close>

text \<open>
  The lines the program logs, by their format string and its arguments: in \<open>run\<close>
  \<open>Fetching staff list from {}\<close>, the empty line and \<open>{} staff members are found...\<close>;
  in \<open>get_staff_list\<close> \<open>Fetching a staff list from {}\<close> and
  \<open>Fetched a staff list containing {} entries\<close>; in \<open>get_personal_page\<close>
  \<open>Fetching the staff member #{} from {}\<close> and \<open>Fetched a staff member: {}\<close>; in
  \<open>write\<close> \<open>Written {}\<close>. A console line is a message, or a value printed by
  \<open>log_data\<close>, pretty or not.
\<close>

datatype message =
    Fetching_staff_list pystr
  | Fetching_a_staff_list pystr
  | Fetched_a_staff_list nat
  | Blank
  | Staff_members_found nat
  | Fetching_the_staff_member nat pystr
  | Fetched_a_staff_member pyval
  | Written pystr

datatype console_line = Message message | Data bool pydict

record json_file =
  data :: "pydict list"
  indent :: "nat option"

record world =
  site :: "pystr list \<Rightarrow> pystr \<Rightarrow> error + tag"
  writable :: "pystr \<Rightarrow> bool"
  requested :: "pystr list"
  console :: "console_line list"
  files :: "pystr \<rightharpoonup> json_file"

text \<open>
  An action on the world returns a value or raises, and leaves a world behind.
  \<open>sbind\<close> runs the second action only when the first did not raise.
\<close>

type_synonym 'a action = "world \<Rightarrow> (error + 'a) \<times> world"

definition ret :: "'a \<Rightarrow> 'a action" where
  "ret x w = (Inr x, w)"

definition lift :: "error + 'a \<Rightarrow> 'a action" where
  "lift r w = (r, w)"

definition sbind :: "'a action \<Rightarrow> ('a \<Rightarrow> 'b action) \<Rightarrow> 'b action" where
  "sbind m f w = (case m w of (Inl e, w') \<Rightarrow> (Inl e, w') | (Inr x, w') \<Rightarrow> f x w')"

definition print :: "console_line \<Rightarrow> unit action" where
  "print line w = (Inr (), w\<lparr>console := console w @ [line]\<rparr>)"

definition get_html_parser :: "pystr \<Rightarrow> tag action" where
  "get_html_parser url w = (site w (requested w) url, w\<lparr>requested := requested w @ [url]\<rparr>)"

section \<open>The class Parser\<close>

record options =
  silent_mode :: bool
  verbose_mode :: bool
  pretty_output :: bool
  file_path :: "pystr option"

text \<open>\<open>results\<close> is None as long as the attribute \<open>self.results\<close> has not been assigned.\<close>

record parser =
  base_url :: pystr
  options :: options
  results :: "pydict list option"

definition Parser_base_url :: pystr where
  "Parser_base_url = py ''http://www.bseu.by/PersonalPages/alphabetic.htm''"

definition personal_page_prefix :: pystr where
  "personal_page_prefix = py ''http://www.bseu.by''"

definition staff_div_id :: pystr where
  "staff_div_id = py ''Pages''"

definition person_div_id :: pystr where
  "person_div_id = py ''persinfo''"

definition default_image :: pystr where
  "default_image = py ''https://mytimetable.live/images/man-user.png''"

text \<open>
  \<open>Parser(base_url, options)\<close>: \<open>base_url or Parser.base_url\<close> takes the class default
  for None and for the empty string. \<open>opts\<close> is the options dict after the update of
  the defaults.
\<close>

definition Parser :: "pystr option \<Rightarrow> options \<Rightarrow> parser" where
  "Parser url opts =
     \<lparr>base_url = (case url of None \<Rightarrow> Parser_base_url
                   | Some u \<Rightarrow> if u = [] then Parser_base_url else u),
      options = opts,
      results = None\<rparr>"

definition log_data :: "parser \<Rightarrow> pydict \<Rightarrow> unit action" where
  "log_data self d = print (Data (pretty_output (options self)) d)"

text \<open>\<open>output\<close> is falsy when it is None or an empty dict.\<close>

definition log :: "parser \<Rightarrow> message \<Rightarrow> pydict option \<Rightarrow> unit action" where
  "log self msg output =
     (if \<not> silent_mode (options self) then
        (if output = None \<or> output = Some [] then print (Message msg)
         else if verbose_mode (options self)
           then sbind (print (Message msg)) (\<lambda>_. log_data self (the output))
           else ret ())
      else ret ())"

definition get_staff_list :: "parser \<Rightarrow> pystr list action" where
  "get_staff_list self =
     sbind (log self (Fetching_a_staff_list (base_url self)) None) (\<lambda>_.
     sbind (get_html_parser (base_url self)) (\<lambda>soup.
     sbind (lift (parse_staff_links soup staff_div_id)) (\<lambda>staff_members.
     sbind (log self (Fetched_a_staff_list (length staff_members)) None) (\<lambda>_.
     ret staff_members))))"

text \<open>\<open>d[key]\<close> on a dict: KeyError when the key is missing.\<close>

definition dict_getitem :: "pydict \<Rightarrow> string \<Rightarrow> error + pyval" where
  "dict_getitem d key = (case map_of d key of None \<Rightarrow> Inl KeyError | Some v \<Rightarrow> Inr v)"

definition get_personal_page ::
  "(pystr \<Rightarrow> pystr) \<Rightarrow> parser \<Rightarrow> pystr \<Rightarrow> nat \<Rightarrow> pydict action" where
  "get_personal_page lower self personal_page_suffix index =
     (let url = personal_page_prefix @ personal_page_suffix in
      sbind (log self (Fetching_the_staff_member (index + 1) url) None) (\<lambda>_.
      sbind (get_html_parser url) (\<lambda>soup.
      sbind (lift (parse_personal_page soup person_div_id)) (\<lambda>(full_name, img, degree_string).
      sbind (lift (transform_full_name full_name)) (\<lambda>result.
      let personal_image = (if img \<noteq> [] then personal_page_prefix @ img else default_image) in
      sbind (lift (transform_degree lower degree_string)) (\<lambda>degree.
      let result = dict_update result
            [(''img'', PStr personal_image), (''degree'', PInt (int degree))] in
      sbind (lift (dict_getitem result ''last_name'')) (\<lambda>last_name.
      sbind (log self (Fetched_a_staff_member last_name) (Some result)) (\<lambda>_.
      ret result))))))))"

text \<open>
  The generator \<open>get_personal_data\<close> together with the loop of \<open>run\<close> that consumes
  it: each link is fetched when the loop asks for the next item, and the page is appended
  to the local list \<open>results\<close> of \<open>run\<close>, here \<open>res\<close>. \<open>staff_links\<close> is the whole list, searched by \<open>staff_links.index(link)\<close>.
\<close>

fun get_personal_data ::
  "(pystr \<Rightarrow> pystr) \<Rightarrow> parser \<Rightarrow> pystr list \<Rightarrow> pystr list \<Rightarrow> pydict list
     \<Rightarrow> pydict list action" where
  "get_personal_data lower self staff_links [] res = ret res"
| "get_personal_data lower self staff_links (link # links) res =
     sbind (lift (list_index staff_links link)) (\<lambda>index.
     sbind (get_personal_page lower self link index) (\<lambda>personal_page.
     get_personal_data lower self staff_links links (res @ [personal_page])))"

definition write_result :: "parser \<Rightarrow> pystr \<Rightarrow> pydict list \<Rightarrow> unit action" where
  "write_result self filename result w =
     (if writable w filename then
        log self (Written filename) None
          (w\<lparr>files := (files w)(filename \<mapsto>
               \<lparr>data = result,
                indent = (if pretty_output (options self) then Some 2 else None)\<rparr>)\<rparr>)
      else (Inl OSError, w))"

text \<open>
  \<open>Parser.write(filepath, results)\<close>: \<open>not results\<close> holds for None and for the empty list, and
  then \<open>self.results\<close> is read, an AttributeError while it is unassigned.
\<close>

definition Parser_write :: "parser \<Rightarrow> pystr \<Rightarrow> pydict list option \<Rightarrow> unit action" where
  "Parser_write self filepath res =
     sbind (lift (if res = None \<or> res = Some [] then not_None (results self)
                  else Inr (the res))) (\<lambda>res.
     write_result self filepath res)"

text \<open>
  \<open>run_body\<close> is \<open>run\<close> up to its last statement and yields the local list
  \<open>results\<close>; \<open>run\<close> then assigns it to \<open>self.results\<close>, and so returns the Parser as
  well. \<open>self.options['file_path']\<close> is falsy when it is None, False or the empty string.
\<close>

definition run_body :: "(pystr \<Rightarrow> pystr) \<Rightarrow> parser \<Rightarrow> pydict list action" where
  "run_body lower self =
     sbind (log self (Fetching_staff_list (base_url self)) None) (\<lambda>_.
     sbind (get_staff_list self) (\<lambda>staff_links.
     sbind (log self Blank None) (\<lambda>_.
     sbind (log self (Staff_members_found (length staff_links)) None) (\<lambda>_.
     sbind (get_personal_data lower self staff_links staff_links []) (\<lambda>res.
     sbind (case file_path (options self) of
              None \<Rightarrow> ret ()
            | Some path \<Rightarrow> if path \<noteq> [] then Parser_write self path (Some res) else ret ()) (\<lambda>_.
     ret res))))))"

definition run :: "(pystr \<Rightarrow> pystr) \<Rightarrow> parser \<Rightarrow> world \<Rightarrow> (error + unit) \<times> parser \<times> world" where
  "run lower self w =
     (case run_body lower self w of
        (Inl e, w') \<Rightarrow> (Inl e, self, w')
      | (Inr res, w') \<Rightarrow> (Inr (), self\<lparr>results := Some res\<rparr>, w'))"

section \<open>Notions used in the statements\<close>

text \<open>The elements below \<open>soup\<close>, in document order.\<close>

definition elements :: "tag \<Rightarrow> tag list" where
  "elements soup = map fst (tags_of (descendants (contents soup)))"

text \<open>
  What \<open>get_personal_page\<close> makes of the document it fetched, between its two log
  lines: the statements of \<open>get_personal_page\<close> from \<open>parse_personal_page\<close> to the read of
  \<open>result['last_name']\<close>, which touch nothing but local variables.
\<close>

definition personal_record :: "(pystr \<Rightarrow> pystr) \<Rightarrow> tag \<Rightarrow> error + pydict" where
  "personal_record lower soup =
     ebind (parse_personal_page soup person_div_id) (\<lambda>(full_name, img, degree_string).
     ebind (transform_full_name full_name) (\<lambda>result.
     let personal_image = (if img \<noteq> [] then personal_page_prefix @ img else default_image) in
     ebind (transform_degree lower degree_string) (\<lambda>degree.
     let result = dict_update result
           [(''img'', PStr personal_image), (''degree'', PInt (int degree))] in
     ebind (dict_getitem result ''last_name'') (\<lambda>last_name.
     Inr result))))"

text \<open>
  The outcome of profile \<open>i\<close> of a crawl over \<open>links\<close>: the site's answer to the request
  for it, made after the requests \<open>hist\<close> and the requests for the profiles before it,
  and the record made of the answer.
\<close>

definition profile_outcome ::
  "(pystr \<Rightarrow> pystr) \<Rightarrow> (pystr list \<Rightarrow> pystr \<Rightarrow> error + tag) \<Rightarrow> pystr list \<Rightarrow> pystr list \<Rightarrow> nat
     \<Rightarrow> error + pydict" where
  "profile_outcome lower answer hist links i =
     ebind (answer (hist @ map (\<lambda>l. personal_page_prefix @ l) (take i links))
              (personal_page_prefix @ links ! i))
       (personal_record lower)"

text \<open>The link target an element contributes: that of an anchor with \<open>href\<close>.\<close>

definition anchor_href :: "tag \<Rightarrow> pystr option" where
  "anchor_href e = (if name e = py ''a'' then map_of (attrs e) (py ''href'') else None)"

section \<open>Example pages\<close>

text \<open>
  A small site for the examples below. The index at the default address lists two
  profiles; the index \<open>/bad\<close> lists a broken profile between them; the index
  \<open>/empty\<close> has a container without links; the index \<open>/none\<close> has no container.
\<close>

definition example_index :: tag where
  "example_index = Tag (py ''[document]'') []
     [Element (Tag (py ''div'') [(py ''id'', py ''Pages'')]
        [Element (Tag (py ''a'') [(py ''href'', py ''/p/a.htm'')] [NavigableString (py ''A'')]),
         Element (Tag (py ''a'') [(py ''href'', py ''/p/b.htm'')] [NavigableString (py ''B'')])])]"

definition example_index_bad :: tag where
  "example_index_bad = Tag (py ''[document]'') []
     [Element (Tag (py ''div'') [(py ''id'', py ''Pages'')]
        [Element (Tag (py ''a'') [(py ''href'', py ''/p/a.htm'')] []),
         Element (Tag (py ''a'') [(py ''href'', py ''/p/x.htm'')] []),
         Element (Tag (py ''a'') [(py ''href'', py ''/p/b.htm'')] [])])]"

definition example_index_empty :: tag where
  "example_index_empty = Tag (py ''[document]'') []
     [Element (Tag (py ''div'') [(py ''id'', py ''Pages'')] [NavigableString (py ''nobody'')])]"

definition example_index_none :: tag where
  "example_index_none = Tag (py ''[document]'') []
     [Element (Tag (py ''div'') [(py ''id'', py ''Staff'')]
        [Element (Tag (py ''a'') [(py ''href'', py ''/p/a.htm'')] [])])]"

text \<open>
  Profile \<open>a\<close>: a photo, a name of three tokens, and the degree text
  U+0414 U+043E U+0446 U+0435 U+043D U+0442 (the label of position 2, capitalised)
  followed by a no-break space and more text.
\<close>

definition example_profile_a :: tag where
  "example_profile_a = Tag (py ''[document]'') []
     [Element (Tag (py ''div'') [(py ''id'', py ''persinfo'')]
        [Element (Tag (py ''img'') [(py ''src'', py ''/img/a.png'')] []),
         Element (Tag (py ''h4'') [] [NavigableString (py ''Ivanov Ivan  Ivanovich'')]),
         Element (Tag (py ''p'') [(py ''class'', py ''noIndnt'')]
           [Element (Tag (py ''b'') [] [NavigableString (py ''Ivanov'')]),
            Element (Tag (py ''br'') [] []),
            NavigableString ([0x414, 0x43E, 0x446, 0x435, 0x43D, 0x442, 0xA0] @ py ''dept'')])])]"

text \<open>Profile \<open>b\<close>: no photo, a name of two tokens, a degree text that is no label.\<close>

definition example_profile_b :: tag where
  "example_profile_b = Tag (py ''[document]'') []
     [Element (Tag (py ''div'') [(py ''id'', py ''persinfo'')]
        [Element (Tag (py ''h4'') [] [NavigableString (py ''Petrov Petr'')]),
         Element (Tag (py ''p'') [(py ''class'', py ''small noIndnt'')]
           [Element (Tag (py ''br'') [] []),
            NavigableString (py ''lecturer'')])])]"

text \<open>Profile \<open>c\<close>: as \<open>b\<close>, with a photo element whose source path is empty.\<close>

definition example_profile_c :: tag where
  "example_profile_c = Tag (py ''[document]'') []
     [Element (Tag (py ''div'') [(py ''id'', py ''persinfo'')]
        [Element (Tag (py ''img'') [(py ''src'', [])] []),
         Element (Tag (py ''h4'') [] [NavigableString (py ''Petrov Petr'')]),
         Element (Tag (py ''p'') [(py ''class'', py ''noIndnt'')]
           [Element (Tag (py ''br'') [] []),
            NavigableString (py ''lecturer'')])])]"

text \<open>Profile \<open>x\<close>: a name of one token.\<close>

definition example_profile_x :: tag where
  "example_profile_x = Tag (py ''[document]'') []
     [Element (Tag (py ''div'') [(py ''id'', py ''persinfo'')]
        [Element (Tag (py ''h4'') [] [NavigableString (py ''Sidorov'')]),
         Element (Tag (py ''p'') [(py ''class'', py ''noIndnt'')]
           [Element (Tag (py ''br'') [] []),
            NavigableString (py ''lecturer'')])])]"

definition example_site :: "pystr list \<Rightarrow> pystr \<Rightarrow> error + tag" where
  "example_site hist url =
     (if url = py ''http://www.bseu.by/PersonalPages/alphabetic.htm'' then Inr example_index
      else if url = py ''http://www.bseu.by/bad'' then Inr example_index_bad
      else if url = py ''http://www.bseu.by/empty'' then Inr example_index_empty
      else if url = py ''http://www.bseu.by/none'' then Inr example_index_none
      else if url = py ''http://www.bseu.by/p/a.htm'' then Inr example_profile_a
      else if url = py ''http://www.bseu.by/p/b.htm'' then Inr example_profile_b
      else if url = py ''http://www.bseu.by/p/c.htm'' then Inr example_profile_c
      else if url = py ''http://www.bseu.by/p/x.htm'' then Inr example_profile_x
      else Inl TransportError)"

definition example_world :: world where
  "example_world =
     \<lparr>site = example_site, writable = (\<lambda>path. True), requested = [], console = [],
      files = Map.empty\<rparr>"

definition example_options :: "pystr option \<Rightarrow> options" where
  "example_options path =
     \<lparr>silent_mode = False, verbose_mode = True, pretty_output = False, file_path = path\<rparr>"

definition example_record_a :: pydict where
  "example_record_a =
     [(''last_name'', PStr (py ''Ivanov'')),
      (''first_name'', PStr (py ''Ivan'')),
      (''middle_name'', PStr (py ''Ivanovich'')),
      (''img'', PStr (py ''http://www.bseu.by/img/a.png'')),
      (''degree'', PInt 2)]"

definition example_record_b :: pydict where
  "example_record_b =
     [(''last_name'', PStr (py ''Petrov'')),
      (''first_name'', PStr (py ''Petr'')),
      (''middle_name'', PStr []),
      (''img'', PStr (py ''https://mytimetable.live/images/man-user.png'')),
      (''degree'', PInt 5)]"

section \<open>Strings and lists\<close>

lemma list_index_nth:
  "distinct xs \<Longrightarrow> i < length xs \<Longrightarrow> list_index xs (xs ! i) = Inr i"
proof (induction xs arbitrary: i)
  case Nil
  then show ?case by simp
next
  case (Cons y ys)
  show ?case
  proof (cases i)
    case 0
    then show ?thesis by simp
  next
    case (Suc j)
    with Cons.prems have "ys ! j \<in> set ys" "y \<notin> set ys" "distinct ys" "j < length ys"
      by auto
    then have "y \<noteq> ys ! j" by auto
    with Cons.IH [of j] \<open>distinct ys\<close> \<open>j < length ys\<close> Suc show ?thesis
      by simp
  qed
qed

lemma list_index_mem:
  "x \<in> set xs \<Longrightarrow> \<exists>i. list_index xs x = Inr i"
  by (induction xs) auto

lemma str_split_unfold:
  "dropWhile isspace s \<noteq> [] \<Longrightarrow>
   str_split s = takeWhile (\<lambda>c. \<not> isspace c) (dropWhile isspace s) #
     str_split (dropWhile (\<lambda>c. \<not> isspace c) (dropWhile isspace s))"
  by (subst str_split.simps) (simp add: Let_def)

lemma str_split_empty: "dropWhile isspace s = [] \<Longrightarrow> str_split s = []"
  by (subst str_split.simps) simp

text \<open>Every token of \<open>s.split()\<close> is non-empty and holds no whitespace.\<close>

lemma str_split_tokens:
  "t \<in> set (str_split s) \<Longrightarrow> t \<noteq> [] \<and> (\<forall>c\<in>set t. \<not> isspace c)"
proof (induction s arbitrary: t rule: str_split.induct)
  case (1 s)
  define rest where "rest = dropWhile isspace s"
  show ?case
  proof (cases "rest = []")
    case True
    then have "str_split s = []"
      unfolding rest_def by (rule str_split_empty)
    with "1.prems" show ?thesis
      by simp
  next
    case False
    then obtain c cs where rc: "rest = c # cs" by (cases rest) auto
    then have "dropWhile isspace s = c # cs" by (simp add: rest_def)
    then have c: "\<not> isspace c" by (simp add: dropWhile_eq_Cons_conv)
    have "str_split s = takeWhile (\<lambda>c. \<not> isspace c) rest #
            str_split (dropWhile (\<lambda>c. \<not> isspace c) rest)"
      using False unfolding rest_def by (rule str_split_unfold)
    with "1.prems"
    have "t = takeWhile (\<lambda>c. \<not> isspace c) rest \<or>
          t \<in> set (str_split (dropWhile (\<lambda>c. \<not> isspace c) rest))"
      by simp
    then show ?thesis
    proof
      assume t: "t = takeWhile (\<lambda>c. \<not> isspace c) rest"
      have "t \<noteq> []" unfolding t rc using c by simp
      moreover have "\<forall>c\<in>set t. \<not> isspace c"
        unfolding t by (auto dest: set_takeWhileD)
      ultimately show ?thesis by simp
    next
      assume "t \<in> set (str_split (dropWhile (\<lambda>c. \<not> isspace c) rest))"
      then show ?thesis
        by (rule "1.IH" [OF rest_def False])
    qed
  qed
qed

text \<open>The tokens, put together, are the input without its whitespace.\<close>

lemma str_split_concat: "concat (str_split s) = filter (\<lambda>c. \<not> isspace c) s"
proof (induction s rule: str_split.induct)
  case (1 s)
  define rest where "rest = dropWhile isspace s"
  have "filter (\<lambda>c. \<not> isspace c) (takeWhile isspace s) = []"
    by (auto simp: filter_empty_conv dest: set_takeWhileD)
  then have "filter (\<lambda>c. \<not> isspace c) (takeWhile isspace s @ rest)
             = filter (\<lambda>c. \<not> isspace c) rest"
    by simp
  then have fs: "filter (\<lambda>c. \<not> isspace c) s = filter (\<lambda>c. \<not> isspace c) rest"
    by (simp add: rest_def)
  show ?case
  proof (cases "rest = []")
    case True
    then have "str_split s = []"
      unfolding rest_def by (rule str_split_empty)
    then show ?thesis
      using fs True by simp
  next
    case False
    have f2: "filter (\<lambda>c. \<not> isspace c) (takeWhile (\<lambda>c. \<not> isspace c) rest)
              = takeWhile (\<lambda>c. \<not> isspace c) rest"
      by (auto simp: filter_id_conv dest: set_takeWhileD)
    have "filter (\<lambda>c. \<not> isspace c) (takeWhile (\<lambda>c. \<not> isspace c) rest) @
          filter (\<lambda>c. \<not> isspace c) (dropWhile (\<lambda>c. \<not> isspace c) rest)
          = filter (\<lambda>c. \<not> isspace c)
              (takeWhile (\<lambda>c. \<not> isspace c) rest @ dropWhile (\<lambda>c. \<not> isspace c) rest)"
      by (rule filter_append [symmetric])
    also have "\<dots> = filter (\<lambda>c. \<not> isspace c) rest"
      by (simp only: takeWhile_dropWhile_id)
    finally have fr: "filter (\<lambda>c. \<not> isspace c) rest =
          takeWhile (\<lambda>c. \<not> isspace c) rest @
          filter (\<lambda>c. \<not> isspace c) (dropWhile (\<lambda>c. \<not> isspace c) rest)"
      by (simp only: f2)
    have "str_split s = takeWhile (\<lambda>c. \<not> isspace c) rest #
            str_split (dropWhile (\<lambda>c. \<not> isspace c) rest)"
      using False unfolding rest_def by (rule str_split_unfold)
    then have "concat (str_split s) =
          takeWhile (\<lambda>c. \<not> isspace c) rest @
          concat (str_split (dropWhile (\<lambda>c. \<not> isspace c) rest))"
      by simp
    also have "concat (str_split (dropWhile (\<lambda>c. \<not> isspace c) rest))
          = filter (\<lambda>c. \<not> isspace c) (dropWhile (\<lambda>c. \<not> isspace c) rest)"
      by (rule "1.IH" [OF rest_def False])
    finally show ?thesis
      using fs fr by simp
  qed
qed

lemma str_split_token_space:
  assumes "t \<noteq> []" "\<forall>c\<in>set t. \<not> isspace c" "u = [] \<or> isspace (hd u)"
  shows "str_split (t @ u) = t # str_split u"
proof -
  from assms(1) obtain c cs where t: "t = c # cs" by (cases t) auto
  with assms(2) have c: "\<not> isspace c" by simp
  have d: "dropWhile isspace (t @ u) = t @ u"
    using t c by simp
  have tw: "takeWhile (\<lambda>c. \<not> isspace c) (t @ u) = t"
  proof (cases u)
    case Nil
    then show ?thesis using assms(2) by (simp add: takeWhile_eq_all_conv)
  next
    case (Cons x xs)
    with assms(3) have "isspace x" by simp
    then show ?thesis using assms(2) Cons by (simp add: takeWhile_append2)
  qed
  have dw: "dropWhile (\<lambda>c. \<not> isspace c) (t @ u) = u"
  proof (cases u)
    case Nil
    then show ?thesis using assms(2) by (simp add: dropWhile_eq_Nil_conv)
  next
    case (Cons x xs)
    with assms(3) have "isspace x" by simp
    then show ?thesis using assms(2) Cons by (simp add: dropWhile_append2)
  qed
  have "dropWhile isspace (t @ u) \<noteq> []"
    using d t by simp
  from str_split_unfold [OF this] show ?thesis
    by (simp only: d tw dw)
qed

lemma str_split_space: "isspace c \<Longrightarrow> str_split (c # s) = str_split s"
  by (subst str_split.simps, subst (2) str_split.simps) simp

text \<open>Splitting what \<open>' '.join\<close> made of tokens gives the tokens back.\<close>

lemma str_split_join:
  assumes "\<forall>t\<in>set ts. t \<noteq> [] \<and> (\<forall>c\<in>set t. \<not> isspace c)"
  shows "str_split (str_join (py '' '') ts) = ts"
  using assms
proof (induction "py '' ''" ts rule: str_join.induct)
  case 1
  show ?case by (simp add: str_split_empty)
next
  case (2 x)
  then show ?case
    using str_split_token_space [of x "[]"] by (simp add: str_split_empty)
next
  case (3 x y ys)
  have sp: "isspace 0x20" by (simp add: isspace_def)
  have "str_split (x @ py '' '' @ str_join (py '' '') (y # ys))
        = x # str_split (py '' '' @ str_join (py '' '') (y # ys))"
    using 3(2) sp by (intro str_split_token_space) (simp_all add: py_def)
  also have "str_split (py '' '' @ str_join (py '' '') (y # ys))
        = str_split (str_join (py '' '') (y # ys))"
    using str_split_space [OF sp] by (simp add: py_def)
  finally show ?case
    using 3 by simp
qed

section \<open>The degree normalizer\<close>

lemma degrees_length: "length degrees = 5"
  by (simp add: degrees_def)

lemma degrees_distinct: "distinct degrees"
  by (simp add: degrees_def)

text \<open>
  C1, as the code has it. \<open>transform_degree\<close> lower-cases the input and looks the
  result up in the list of the five labels as it is, without trimming: when the
  lower-cased input is the label at position \<open>i\<close> the result is \<open>i\<close>, and when it is none
  of the labels the result is 5, the length of the list.
\<close>

theorem transform_degree_index:
  "(\<forall>i<length degrees. lower s = degrees ! i \<longrightarrow> transform_degree lower s = Inr i) \<and>
   (lower s \<notin> set degrees \<longrightarrow> transform_degree lower s = Inr 5) \<and>
   length degrees = 5"
proof (intro conjI allI impI)
  fix i
  assume "i < length degrees" "lower s = degrees ! i"
  then show "transform_degree lower s = Inr i"
    using list_index_nth [OF degrees_distinct, of i]
    by (simp add: transform_degree_def)
next
  assume "lower s \<notin> set degrees"
  then show "transform_degree lower s = Inr 5"
    by (simp add: transform_degree_def degrees_length)
next
  show "length degrees = 5"
    by (rule degrees_length)
qed

text \<open>
  The label of position 2 in capitals is found at position 2, and the Latin text
  \<open>Dr\<close> is none of the labels.
\<close>

theorem transform_degree_index_witness:
  "(2 < length degrees \<and>
    str_lower [0x414, 0x41E, 0x426, 0x415, 0x41D, 0x422] = degrees ! 2 \<and>
    transform_degree str_lower [0x414, 0x41E, 0x426, 0x415, 0x41D, 0x422] = Inr 2) \<and>
   (str_lower [0x44, 0x72] \<notin> set degrees \<and>
    transform_degree str_lower [0x44, 0x72] = Inr 5)"
proof -
  have a: "2 < length degrees"
    by (simp add: degrees_def)
  have b: "str_lower [0x414, 0x41E, 0x426, 0x415, 0x41D, 0x422] = degrees ! 2"
    by (simp add: str_lower_def lower_cp_def degrees_def)
  have c: "str_lower [0x44, 0x72] \<notin> set degrees"
    by (simp add: str_lower_def lower_cp_def degrees_def)
  from transform_degree_index [of str_lower "[0x414, 0x41E, 0x426, 0x415, 0x41D, 0x422]"] a b
  have "transform_degree str_lower [0x414, 0x41E, 0x426, 0x415, 0x41D, 0x422] = Inr 2"
    by blast
  moreover from transform_degree_index [of str_lower "[0x44, 0x72]"] c
  have "transform_degree str_lower [0x44, 0x72] = Inr 5"
    by blast
  ultimately show ?thesis
    using a b c by blast
qed

text \<open>
  C1 as stated fails: the label of position 2 with a space in front is that label once
  lower-cased and trimmed, and \<open>transform_degree\<close> answers 5.
\<close>

theorem transform_degree_untrimmed:
  "str_strip (str_lower [0x20, 0x434, 0x43E, 0x446, 0x435, 0x43D, 0x442]) = degrees ! 2 \<and>
   transform_degree str_lower [0x20, 0x434, 0x43E, 0x446, 0x435, 0x43D, 0x442] = Inr 5"
  by (simp add: transform_degree_def str_lower_def lower_cp_def degrees_def str_strip_def
      isspace_def)

section \<open>The name normalizer\<close>

text \<open>
  C2. A full name of at least two whitespace-separated tokens gives a record: the last
  name is token 0, the first name is token 1, and the middle name is empty for two
  tokens and otherwise the tokens from index 2 on, joined by single spaces.
\<close>

theorem transform_full_name_tokens:
  assumes "2 \<le> length (str_split full_name)"
  shows "transform_full_name full_name =
           Inr [(''last_name'', PStr (str_split full_name ! 0)),
                (''first_name'', PStr (str_split full_name ! 1)),
                (''middle_name'',
                   PStr (if length (str_split full_name) = 2 then []
                         else str_join (py '' '') (drop 2 (str_split full_name))))]"
proof (cases "length (str_split full_name) = 2")
  case True
  then show ?thesis
    by (simp add: transform_full_name_def getitem_def nth_append Let_def)
next
  case False
  with assms show ?thesis
    by (auto simp: transform_full_name_def getitem_def Let_def)
qed

text \<open>
  A name of four tokens, with a tab and a double space between them: the middle name
  is tokens 2 and 3 with one space between.
\<close>

theorem transform_full_name_tokens_witness:
  "2 \<le> length (str_split [0x418, 0x432, 0x20, 0x20, 0x418, 0x43D, 0x9, 0x41E, 0x20, 0x424]) \<and>
   transform_full_name [0x418, 0x432, 0x20, 0x20, 0x418, 0x43D, 0x9, 0x41E, 0x20, 0x424] =
     Inr [(''last_name'', PStr [0x418, 0x432]),
          (''first_name'', PStr [0x418, 0x43D]),
          (''middle_name'', PStr [0x41E, 0x20, 0x424])]"
proof -
  have s: "str_split [0x418, 0x432, 0x20, 0x20, 0x418, 0x43D, 0x9, 0x41E, 0x20, 0x424]
           = [[0x418, 0x432], [0x418, 0x43D], [0x41E], [0x424]]"
    by (simp add: str_split.simps isspace_def)
  then have h: "2 \<le> length (str_split
      [0x418, 0x432, 0x20, 0x20, 0x418, 0x43D, 0x9, 0x41E, 0x20, 0x424])"
    by simp
  show ?thesis
    using h transform_full_name_tokens [OF h] by (simp add: s py_def)
qed

text \<open>
  C3. A full name of fewer than two tokens (the empty string, whitespace only, or a
  single token) gives no record: \<open>names[0]\<close> or \<open>names[1]\<close> raises IndexError.
\<close>

theorem transform_full_name_IndexError:
  assumes "length (str_split full_name) < 2"
  shows "transform_full_name full_name = Inl IndexError"
proof (cases "str_split full_name")
  case Nil
  then show ?thesis
    by (simp add: transform_full_name_def getitem_def Let_def)
next
  case (Cons t ts)
  with assms have "ts = []" by simp
  with Cons show ?thesis
    by (simp add: transform_full_name_def getitem_def Let_def)
qed

text \<open>A single token between spaces, and the empty string.\<close>

theorem transform_full_name_IndexError_witness:
  "length (str_split [0x20, 0x418, 0x432, 0x20]) < 2 \<and>
   transform_full_name [0x20, 0x418, 0x432, 0x20] = Inl IndexError \<and>
   length (str_split []) < 2 \<and>
   transform_full_name [] = Inl IndexError"
proof -
  have h: "length (str_split [0x20, 0x418, 0x432, 0x20]) < 2"
    by (simp add: str_split.simps isspace_def)
  have e: "length (str_split []) < 2"
    by (simp add: str_split.simps)
  show ?thesis
    using h e transform_full_name_IndexError [OF h] transform_full_name_IndexError [OF e]
    by simp
qed

section \<open>Searching a document\<close>

lemma find_all_elements:
  "find_all nm crit soup = filter (\<lambda>e. name e = nm \<and> crit (attrs e)) (elements soup)"
  by (simp add: find_all_def find_all_sib_def elements_def filter_map comp_def case_prod_unfold)

lemma first_filter_None:
  "first (filter P xs) = None \<longleftrightarrow> (\<forall>x\<in>set xs. \<not> P x)"
  by (induction xs) auto

lemma first_filter_Some:
  "first (filter P xs) = Some x \<longleftrightarrow>
     (\<exists>pre post. xs = pre @ x # post \<and> P x \<and> (\<forall>y\<in>set pre. \<not> P y))"
proof (induction xs)
  case Nil
  then show ?case by simp
next
  case (Cons a xs)
  show ?case
  proof (cases "P a")
    case True
    have "(\<exists>pre post. a # xs = pre @ x # post \<and> P x \<and> (\<forall>y\<in>set pre. \<not> P y)) \<longleftrightarrow> a = x"
    proof
      assume "\<exists>pre post. a # xs = pre @ x # post \<and> P x \<and> (\<forall>y\<in>set pre. \<not> P y)"
      then obtain pre post where h: "a # xs = pre @ x # post" "\<forall>y\<in>set pre. \<not> P y"
        by blast
      show "a = x"
      proof (cases pre)
        case Nil
        with h show ?thesis by simp
      next
        case (Cons b bs)
        with h True show ?thesis by auto
      qed
    next
      assume "a = x"
      with True have "a # xs = [] @ x # xs \<and> P x \<and> (\<forall>y\<in>set []. \<not> P y)"
        by simp
      then show "\<exists>pre post. a # xs = pre @ x # post \<and> P x \<and> (\<forall>y\<in>set pre. \<not> P y)"
        by blast
    qed
    with True show ?thesis by simp
  next
    case False
    have "(\<exists>pre post. a # xs = pre @ x # post \<and> P x \<and> (\<forall>y\<in>set pre. \<not> P y)) \<longleftrightarrow>
          (\<exists>pre post. xs = pre @ x # post \<and> P x \<and> (\<forall>y\<in>set pre. \<not> P y))"
    proof
      assume "\<exists>pre post. a # xs = pre @ x # post \<and> P x \<and> (\<forall>y\<in>set pre. \<not> P y)"
      then obtain pre post where h: "a # xs = pre @ x # post" "P x" "\<forall>y\<in>set pre. \<not> P y"
        by blast
      show "\<exists>pre post. xs = pre @ x # post \<and> P x \<and> (\<forall>y\<in>set pre. \<not> P y)"
      proof (cases pre)
        case Nil
        with h False show ?thesis by simp
      next
        case (Cons b bs)
        with h have "xs = bs @ x # post \<and> P x \<and> (\<forall>y\<in>set bs. \<not> P y)" by simp
        then show ?thesis by blast
      qed
    next
      assume "\<exists>pre post. xs = pre @ x # post \<and> P x \<and> (\<forall>y\<in>set pre. \<not> P y)"
      then obtain pre post where h: "xs = pre @ x # post" "P x" "\<forall>y\<in>set pre. \<not> P y"
        by blast
      with False have "a # xs = (a # pre) @ x # post \<and> P x \<and> (\<forall>y\<in>set (a # pre). \<not> P y)"
        by simp
      then show "\<exists>pre post. a # xs = pre @ x # post \<and> P x \<and> (\<forall>y\<in>set pre. \<not> P y)"
        by blast
    qed
    with False Cons.IH show ?thesis by simp
  qed
qed

lemma find_None:
  "find nm crit soup = None \<longleftrightarrow> (\<forall>e\<in>set (elements soup). \<not> (name e = nm \<and> crit (attrs e)))"
  by (simp add: find_def find_all_elements first_filter_None)

lemma find_Some:
  "find nm crit soup = Some x \<longleftrightarrow>
     (\<exists>pre post. elements soup = pre @ x # post \<and> name x = nm \<and> crit (attrs x) \<and>
        (\<forall>e\<in>set pre. \<not> (name e = nm \<and> crit (attrs e))))"
  by (simp add: find_def find_all_elements first_filter_Some)

lemma append_hrefs_present:
  "\<forall>a\<in>set as. attr_present (py ''href'') (attrs a) \<Longrightarrow>
   append_hrefs as links =
     Inr (links @ List.map_filter (\<lambda>a. map_of (attrs a) (py ''href'')) as)"
proof (induction as arbitrary: links)
  case Nil
  then show ?case by (simp add: map_filter_simps)
next
  case (Cons a as)
  then obtain h where h: "map_of (attrs a) (py ''href'') = Some h"
    by (auto simp: attr_present_def)
  with Cons show ?case
    by (simp add: tag_getitem_def map_filter_simps)
qed

lemma map_filter_filter:
  "List.map_filter f (filter P xs) = List.map_filter (\<lambda>x. if P x then f x else None) xs"
  by (induction xs) (auto simp: map_filter_simps split: option.splits)

text \<open>
  C4, as the code has it. The container is the first \<open>div\<close> element, in document order,
  whose \<open>id\<close> is the given, non-empty one. \<open>parse_staff_links\<close> returns the \<open>href\<close> of
  every anchor among the elements below that container, in document order; an anchor
  without \<open>href\<close> contributes nothing.
\<close>

theorem parse_staff_links_hrefs:
  assumes "div_id \<noteq> []"
    and "elements soup = before @ container # after"
    and "name container = py ''div''"
    and "map_of (attrs container) (py ''id'') = Some div_id"
    and "\<forall>e\<in>set before. \<not> (name e = py ''div'' \<and> map_of (attrs e) (py ''id'') = Some div_id)"
  shows "parse_staff_links soup div_id =
           Inr (List.map_filter anchor_href (elements container))"
proof -
  have "find (py ''div'') (attr_is (py ''id'') div_id) soup = Some container"
    unfolding find_Some using assms(2-5) by (auto simp: attr_is_def)
  moreover have "append_hrefs (find_all (py ''a'') (attr_present (py ''href'')) container) []
        = Inr ([] @ List.map_filter (\<lambda>a. map_of (attrs a) (py ''href''))
                  (find_all (py ''a'') (attr_present (py ''href'')) container))"
    by (rule append_hrefs_present) (simp add: find_all_elements)
  moreover have "List.map_filter (\<lambda>a. map_of (attrs a) (py ''href''))
                  (find_all (py ''a'') (attr_present (py ''href'')) container)
        = List.map_filter anchor_href (elements container)"
    unfolding find_all_elements map_filter_filter anchor_href_def
    by (rule arg_cong [where f = "\<lambda>f. List.map_filter f (elements container)"])
       (auto simp: attr_present_def fun_eq_iff)
  ultimately show ?thesis
    by (simp add: parse_staff_links_def not_None_def)
qed

text \<open>
  A container \<open>Pages\<close> behind a heading, holding an anchor to \<open>/p/a.htm\<close>, an anchor
  without \<open>href\<close> and, inside a paragraph, an anchor to \<open>/p/b.htm\<close>.
\<close>

theorem parse_staff_links_hrefs_witness:
  "elements (Tag (py ''[document]'') []
      [Element (Tag (py ''h1'') [] []),
       Element (Tag (py ''div'') [(py ''id'', py ''Pages'')]
         [Element (Tag (py ''a'') [(py ''href'', py ''/p/a.htm'')] [NavigableString (py ''A'')]),
          Element (Tag (py ''a'') [(py ''name'', py ''top'')] []),
          Element (Tag (py ''p'') []
            [Element (Tag (py ''a'') [(py ''href'', py ''/p/b.htm'')] [])])])])
    = [Tag (py ''h1'') [] []] @
      Tag (py ''div'') [(py ''id'', py ''Pages'')]
         [Element (Tag (py ''a'') [(py ''href'', py ''/p/a.htm'')] [NavigableString (py ''A'')]),
          Element (Tag (py ''a'') [(py ''name'', py ''top'')] []),
          Element (Tag (py ''p'') []
            [Element (Tag (py ''a'') [(py ''href'', py ''/p/b.htm'')] [])])] #
      [Tag (py ''a'') [(py ''href'', py ''/p/a.htm'')] [NavigableString (py ''A'')],
       Tag (py ''a'') [(py ''name'', py ''top'')] [],
       Tag (py ''p'') [] [Element (Tag (py ''a'') [(py ''href'', py ''/p/b.htm'')] [])],
       Tag (py ''a'') [(py ''href'', py ''/p/b.htm'')] []] \<and>
   parse_staff_links (Tag (py ''[document]'') []
      [Element (Tag (py ''h1'') [] []),
       Element (Tag (py ''div'') [(py ''id'', py ''Pages'')]
         [Element (Tag (py ''a'') [(py ''href'', py ''/p/a.htm'')] [NavigableString (py ''A'')]),
          Element (Tag (py ''a'') [(py ''name'', py ''top'')] []),
          Element (Tag (py ''p'') []
            [Element (Tag (py ''a'') [(py ''href'', py ''/p/b.htm'')] [])])])])
     (py ''Pages'')
    = Inr [py ''/p/a.htm'', py ''/p/b.htm'']"
  (is "elements ?S = ?B @ ?C # ?A \<and> _")
proof -
  have 1: "elements ?S = ?B @ ?C # ?A"
    by (simp add: elements_def)
  have 2: "name ?C = py ''div''"
    by simp
  have 3: "map_of (attrs ?C) (py ''id'') = Some (py ''Pages'')"
    by simp
  have 4: "\<forall>e\<in>set ?B. \<not> (name e = py ''div'' \<and> map_of (attrs e) (py ''id'') = Some (py ''Pages''))"
    by (simp add: py_def)
  have 5: "List.map_filter anchor_href (elements ?C) = [py ''/p/a.htm'', py ''/p/b.htm'']"
    by (simp add: elements_def map_filter_simps anchor_href_def py_def)
  have 6: "py ''Pages'' \<noteq> []"
    by (simp add: py_def)
  show ?thesis
    using parse_staff_links_hrefs [OF 6 1 2 3 4] 1 5 by simp
qed

text \<open>
  C4 as stated fails: here the element with the identifier \<open>Pages\<close> is a list, not a
  \<open>div\<close>, and the search for the container finds nothing.
\<close>

theorem parse_staff_links_not_div:
  "parse_staff_links (Tag (py ''[document]'') []
      [Element (Tag (py ''ul'') [(py ''id'', py ''Pages'')]
         [Element (Tag (py ''a'') [(py ''href'', py ''/p/a.htm'')] []),
          Element (Tag (py ''a'') [(py ''href'', py ''/p/b.htm'')] [])])])
     (py ''Pages'')
    = Inl AttributeError"
  by (simp add: parse_staff_links_def find_def find_all_def find_all_sib_def not_None_def
      attr_is_def py_def)


section \<open>Actions\<close>

lemma log_value: "fst (log self msg out w) = Inr ()"
  by (simp add: log_def print_def log_data_def sbind_def ret_def)

lemma log_world:
  "site (snd (log self msg out w)) = site w"
  "requested (snd (log self msg out w)) = requested w"
  "files (snd (log self msg out w)) = files w"
  "writable (snd (log self msg out w)) = writable w"
  by (simp_all add: log_def print_def log_data_def sbind_def ret_def)

lemma sbind_log: "sbind (log self msg out) f w = f () (snd (log self msg out w))"
proof -
  have "log self msg out w = (Inr (), snd (log self msg out w))"
    using log_value [of self msg out w] by (simp add: prod_eq_iff)
  then show ?thesis
    unfolding sbind_def by (metis (mono_tags, lifting) old.prod.case sum.simps(6))
qed

lemma sbind_lift: "sbind (lift r) f w = (case r of Inl e \<Rightarrow> (Inl e, w) | Inr x \<Rightarrow> f x w)"
  by (simp add: sbind_def lift_def split: sum.splits)

lemma sbind_get_html_parser:
  "sbind (get_html_parser url) f w =
     (case site w (requested w) url of
        Inl e \<Rightarrow> (Inl e, w\<lparr>requested := requested w @ [url]\<rparr>)
      | Inr soup \<Rightarrow> f soup (w\<lparr>requested := requested w @ [url]\<rparr>))"
  by (simp add: sbind_def get_html_parser_def split: sum.splits)

lemma get_staff_list_value:
  "fst (get_staff_list self w) =
     ebind (site w (requested w) (base_url self)) (\<lambda>soup. parse_staff_links soup staff_div_id)"
  by (simp add: get_staff_list_def sbind_log sbind_lift sbind_get_html_parser log_world ret_def
      split: sum.splits)

lemma get_staff_list_world:
  "site (snd (get_staff_list self w)) = site w"
  "requested (snd (get_staff_list self w)) = requested w @ [base_url self]"
  "files (snd (get_staff_list self w)) = files w"
  "writable (snd (get_staff_list self w)) = writable w"
  by (simp_all add: get_staff_list_def sbind_log sbind_lift sbind_get_html_parser log_world
      ret_def split: sum.splits)

text \<open>
  What \<open>get_personal_page\<close> returns is \<open>personal_record\<close> of the document the site
  answered with; what it leaves behind is the request and console lines.
\<close>

lemma get_personal_page_value:
  "fst (get_personal_page lower self suffix index w) =
     ebind (site w (requested w) (personal_page_prefix @ suffix)) (personal_record lower)"
  by (simp add: get_personal_page_def personal_record_def sbind_log sbind_lift
      sbind_get_html_parser log_world ret_def Let_def split: sum.splits prod.splits)

lemma get_personal_page_world:
  "site (snd (get_personal_page lower self suffix index w)) = site w"
  "requested (snd (get_personal_page lower self suffix index w)) =
     requested w @ [personal_page_prefix @ suffix]"
  "files (snd (get_personal_page lower self suffix index w)) = files w"
  "writable (snd (get_personal_page lower self suffix index w)) = writable w"
  by (simp_all add: get_personal_page_def sbind_log sbind_lift
      sbind_get_html_parser log_world ret_def Let_def split: sum.splits prod.splits)

lemma sbind_cases:
  "sbind m f w = (case fst (m w) of Inl e \<Rightarrow> (Inl e, snd (m w)) | Inr x \<Rightarrow> f x (snd (m w)))"
  by (simp add: sbind_def split: prod.splits sum.splits)

section \<open>The loop over the staff links\<close>

lemma profile_outcome_0:
  "profile_outcome lower answer hist (l # ls) 0 =
     ebind (answer hist (personal_page_prefix @ l)) (personal_record lower)"
  by (simp add: profile_outcome_def)

lemma profile_outcome_Suc:
  "profile_outcome lower answer hist (l # ls) (Suc j) =
     profile_outcome lower answer (hist @ [personal_page_prefix @ l]) ls j"
  by (simp add: profile_outcome_def)

lemma get_personal_data_Cons:
  assumes "list_index staff_links link = Inr k"
  shows "get_personal_data lower self staff_links (link # links) res w =
     (case fst (get_personal_page lower self link k w) of
        Inl e \<Rightarrow> (Inl e, snd (get_personal_page lower self link k w))
      | Inr page \<Rightarrow>
          get_personal_data lower self staff_links links (res @ [page])
            (snd (get_personal_page lower self link k w)))"
proof -
  have "get_personal_data lower self staff_links (link # links) res w =
        sbind (get_personal_page lower self link k) (\<lambda>personal_page.
          get_personal_data lower self staff_links links (res @ [personal_page])) w"
    using assms by (simp add: sbind_lift)
  then show ?thesis
    by (simp only: sbind_cases)
qed

lemma get_personal_data_Cons_Inl:
  assumes "list_index staff_links link = Inr k"
    and "fst (get_personal_page lower self link k w) = Inl e"
  shows "get_personal_data lower self staff_links (link # links) res w =
           (Inl e, snd (get_personal_page lower self link k w))"
  by (simp only: get_personal_data_Cons [OF assms(1)] assms(2) sum.case)

lemma get_personal_data_Cons_Inr:
  assumes "list_index staff_links link = Inr k"
    and "fst (get_personal_page lower self link k w) = Inr page"
  shows "get_personal_data lower self staff_links (link # links) res w =
           get_personal_data lower self staff_links links (res @ [page])
             (snd (get_personal_page lower self link k w))"
  by (simp only: get_personal_data_Cons [OF assms(1)] assms(2) sum.case)

lemma get_personal_data_world:
  "site (snd (get_personal_data lower self staff_links links res w)) = site w \<and>
   files (snd (get_personal_data lower self staff_links links res w)) = files w \<and>
   writable (snd (get_personal_data lower self staff_links links res w)) = writable w"
proof (induction links arbitrary: res w)
  case Nil
  show ?case by (simp add: ret_def)
next
  case (Cons link links)
  show ?case
  proof (cases "list_index staff_links link")
    case (Inl e)
    then show ?thesis by (simp add: sbind_lift)
  next
    case k: (Inr k)
    show ?thesis
    proof (cases "fst (get_personal_page lower self link k w)")
      case (Inl e)
      show ?thesis
        unfolding get_personal_data_Cons_Inl [OF k Inl]
        by (simp add: get_personal_page_world)
    next
      case (Inr page)
      show ?thesis
        unfolding get_personal_data_Cons_Inr [OF k Inr]
        using Cons.IH [of "res @ [page]" "snd (get_personal_page lower self link k w)"]
        by (simp add: get_personal_page_world)
    qed
  qed
qed

text \<open>
  The loop either returns the records of all the links, in their order, appended to what
  it was given, or raises the error of the first profile that fails, right after the
  request for it.
\<close>

lemma get_personal_data_result:
  assumes "set links \<subseteq> set staff_links"
  shows "(\<forall>out. fst (get_personal_data lower self staff_links links res w) = Inr out \<longrightarrow>
             requested (snd (get_personal_data lower self staff_links links res w)) =
               requested w @ map (\<lambda>l. personal_page_prefix @ l) links \<and>
             (\<exists>recs. out = res @ recs \<and> length recs = length links \<and>
                (\<forall>i<length links.
                   profile_outcome lower (site w) (requested w) links i = Inr (recs ! i)))) \<and>
         (\<forall>e. fst (get_personal_data lower self staff_links links res w) = Inl e \<longrightarrow>
             (\<exists>i<length links.
                profile_outcome lower (site w) (requested w) links i = Inl e \<and>
                (\<forall>j<i. \<exists>r. profile_outcome lower (site w) (requested w) links j = Inr r) \<and>
                requested (snd (get_personal_data lower self staff_links links res w)) =
                  requested w @ map (\<lambda>l. personal_page_prefix @ l) (take (Suc i) links)))"
  using assms
proof (induction links arbitrary: res w)
  case Nil
  show ?case by (simp add: ret_def)
next
  case (Cons link links)
  from Cons.prems have sub: "set links \<subseteq> set staff_links" and mem: "link \<in> set staff_links"
    by simp_all
  from list_index_mem [OF mem] obtain k where k: "list_index staff_links link = Inr k"
    by (elim exE)
  let ?p = "get_personal_page lower self link k w"
  let ?o = "profile_outcome lower (site w) (requested w)"
  let ?pre = "\<lambda>l. personal_page_prefix @ l"
  have v: "fst ?p = ?o (link # links) 0"
    by (simp only: get_personal_page_value profile_outcome_0)
  have rq: "requested (snd ?p) = requested w @ [?pre link]"
    by (rule get_personal_page_world)
  show ?case
  proof (cases "fst ?p")
    case (Inl e)
    have g: "get_personal_data lower self staff_links (link # links) res w = (Inl e, snd ?p)"
      by (rule get_personal_data_Cons_Inl [OF k Inl])
    have "?o (link # links) 0 = Inl e"
      using v Inl by simp
    moreover have "requested (snd ?p) = requested w @ map ?pre (take (Suc 0) (link # links))"
      using rq by simp
    ultimately have "0 < length (link # links) \<and> ?o (link # links) 0 = Inl e \<and>
        (\<forall>j<0. \<exists>r. ?o (link # links) j = Inr r) \<and>
        requested (snd ?p) = requested w @ map ?pre (take (Suc 0) (link # links))"
      by simp
    then have "\<exists>i<length (link # links). ?o (link # links) i = Inl e \<and>
        (\<forall>j<i. \<exists>r. ?o (link # links) j = Inr r) \<and>
        requested (snd ?p) = requested w @ map ?pre (take (Suc i) (link # links))"
      by (rule exI [where x = 0])
    then show ?thesis
      unfolding g by simp
  next
    case (Inr page)
    let ?w1 = "snd ?p"
    let ?g = "get_personal_data lower self staff_links links (res @ [page]) ?w1"
    have g: "get_personal_data lower self staff_links (link # links) res w = ?g"
      by (rule get_personal_data_Cons_Inr [OF k Inr])
    have o0: "?o (link # links) 0 = Inr page"
      using v Inr by simp
    have st: "site ?w1 = site w"
      by (rule get_personal_page_world)
    have shift: "profile_outcome lower (site w) (requested w @ [?pre link]) links j
        = ?o (link # links) (Suc j)" for j
      by (simp only: profile_outcome_Suc)
    note IH = Cons.IH [OF sub, of "res @ [page]" ?w1, unfolded rq st shift]
    have A: "requested (snd ?g) = requested w @ map ?pre (link # links) \<and>
          (\<exists>recs'. out = res @ recs' \<and> length recs' = length (link # links) \<and>
             (\<forall>i<length (link # links). ?o (link # links) i = Inr (recs' ! i)))"
      if out: "fst ?g = Inr out" for out
    proof -
      from IH have "\<forall>out. fst ?g = Inr out \<longrightarrow>
          requested (snd ?g) = (requested w @ [?pre link]) @ map ?pre links \<and>
          (\<exists>recs. out = (res @ [page]) @ recs \<and> length recs = length links \<and>
             (\<forall>i<length links. ?o (link # links) (Suc i) = Inr (recs ! i)))"
        by (rule conjunct1)
      with out have r: "requested (snd ?g) = (requested w @ [?pre link]) @ map ?pre links"
        and "\<exists>recs. out = (res @ [page]) @ recs \<and> length recs = length links \<and>
             (\<forall>i<length links. ?o (link # links) (Suc i) = Inr (recs ! i))"
        by simp_all
      then obtain recs where recs: "out = (res @ [page]) @ recs"
        "length recs = length links"
        "\<forall>i<length links. ?o (link # links) (Suc i) = Inr (recs ! i)"
        by (elim exE conjE)
      have "?o (link # links) i = Inr ((page # recs) ! i)" if "i < length (link # links)" for i
      proof (cases i)
        case 0
        then show ?thesis using o0 by simp
      next
        case (Suc i')
        then show ?thesis using that recs(3) by simp
      qed
      then have "\<forall>i<length (link # links). ?o (link # links) i = Inr ((page # recs) ! i)"
        by (intro allI impI)
      moreover have "out = res @ (page # recs)" "length (page # recs) = length (link # links)"
        using recs by simp_all
      ultimately have "out = res @ (page # recs) \<and>
          length (page # recs) = length (link # links) \<and>
          (\<forall>i<length (link # links). ?o (link # links) i = Inr ((page # recs) ! i))"
        by (intro conjI)
      then have "\<exists>recs'. out = res @ recs' \<and> length recs' = length (link # links) \<and>
          (\<forall>i<length (link # links). ?o (link # links) i = Inr (recs' ! i))"
        by (rule exI [where x = "page # recs"])
      moreover have "requested (snd ?g) = requested w @ map ?pre (link # links)"
        using r by simp
      ultimately show ?thesis
        by (intro conjI)
    qed
    have B: "\<exists>i<length (link # links). ?o (link # links) i = Inl e \<and>
          (\<forall>j<i. \<exists>r. ?o (link # links) j = Inr r) \<and>
          requested (snd ?g) = requested w @ map ?pre (take (Suc i) (link # links))"
      if e: "fst ?g = Inl e" for e
    proof -
      from IH have "\<forall>e. fst ?g = Inl e \<longrightarrow>
          (\<exists>i<length links. ?o (link # links) (Suc i) = Inl e \<and>
             (\<forall>j<i. \<exists>r. ?o (link # links) (Suc j) = Inr r) \<and>
             requested (snd ?g) = (requested w @ [?pre link]) @ map ?pre (take (Suc i) links))"
        by (rule conjunct2)
      with e have "\<exists>i<length links. ?o (link # links) (Suc i) = Inl e \<and>
             (\<forall>j<i. \<exists>r. ?o (link # links) (Suc j) = Inr r) \<and>
             requested (snd ?g) = (requested w @ [?pre link]) @ map ?pre (take (Suc i) links)"
        by simp
      then obtain i where i: "i < length links"
        "?o (link # links) (Suc i) = Inl e"
        "\<forall>j<i. \<exists>r. ?o (link # links) (Suc j) = Inr r"
        and r: "requested (snd ?g) = (requested w @ [?pre link]) @ map ?pre (take (Suc i) links)"
        by (elim exE conjE)
      have "\<exists>r. ?o (link # links) j = Inr r" if "j < Suc i" for j
      proof (cases j)
        case 0
        then show ?thesis using o0 by simp
      next
        case (Suc j')
        then show ?thesis using that i(3) by simp
      qed
      then have "\<forall>j<Suc i. \<exists>r. ?o (link # links) j = Inr r"
        by (intro allI impI)
      moreover have "requested (snd ?g) =
          requested w @ map ?pre (take (Suc (Suc i)) (link # links))"
        using r by simp
      moreover have "Suc i < length (link # links)"
        using i(1) by simp
      ultimately have "Suc i < length (link # links) \<and>
          ?o (link # links) (Suc i) = Inl e \<and>
          (\<forall>j<Suc i. \<exists>r. ?o (link # links) j = Inr r) \<and>
          requested (snd ?g) = requested w @ map ?pre (take (Suc (Suc i)) (link # links))"
        using i(2) by (intro conjI)
      then show ?thesis
        by (rule exI [where x = "Suc i"])
    qed
    show ?thesis
      unfolding g
    proof (intro conjI allI impI)
      fix out assume "fst ?g = Inr out"
      from A [OF this]
      show "requested (snd ?g) = requested w @ map ?pre (link # links)"
        and "\<exists>recs. out = res @ recs \<and> length recs = length (link # links) \<and>
             (\<forall>i<length (link # links). ?o (link # links) i = Inr (recs ! i))"
        by (rule conjunct1, rule conjunct2)
    next
      fix e assume "fst ?g = Inl e"
      from B [OF this]
      show "\<exists>i<length (link # links). ?o (link # links) i = Inl e \<and>
          (\<forall>j<i. \<exists>r. ?o (link # links) j = Inr r) \<and>
          requested (snd ?g) = requested w @ map ?pre (take (Suc i) (link # links))" .
    qed
  qed
qed

section \<open>Writing the file\<close>

lemma write_result_value:
  "fst (write_result self filename result w) =
     (if writable w filename then Inr () else Inl OSError)"
  by (simp add: write_result_def log_value)

lemma write_result_world:
  "requested (snd (write_result self filename result w)) = requested w"
  "\<not> writable w filename \<Longrightarrow> files (snd (write_result self filename result w)) = files w"
  "writable w filename \<Longrightarrow>
     files (snd (write_result self filename result w)) =
       (files w)(filename \<mapsto>
          \<lparr>data = result, indent = (if pretty_output (options self) then Some 2 else None)\<rparr>)"
  by (simp_all add: write_result_def log_world)

lemma Parser_write_empty:
  "results self = None \<Longrightarrow> Parser_write self filepath (Some []) w = (Inl AttributeError, w)"
  by (simp add: Parser_write_def sbind_lift not_None_def)

lemma Parser_write_results:
  "res \<noteq> [] \<Longrightarrow> Parser_write self filepath (Some res) w = write_result self filepath res w"
  by (simp add: Parser_write_def sbind_lift)

section \<open>The run\<close>

text \<open>
  When fetching the index or extracting the links fails, so does the run, after that
  one request. Otherwise the run goes on with the loop and the file.
\<close>

lemma run_body_index_error:
  assumes "ebind (site w (requested w) (base_url self))
             (\<lambda>soup. parse_staff_links soup staff_div_id) = Inl e"
  shows "fst (run_body lower self w) = Inl e"
    and "requested (snd (run_body lower self w)) = requested w @ [base_url self]"
    and "files (snd (run_body lower self w)) = files w"
proof -
  let ?w1 = "snd (log self (Fetching_staff_list (base_url self)) None w)"
  have v: "fst (get_staff_list self ?w1) = Inl e"
    using assms by (simp add: get_staff_list_value log_world)
  have "run_body lower self w = (Inl e, snd (get_staff_list self ?w1))"
    unfolding run_body_def sbind_log
    by (subst sbind_cases) (simp add: v)
  then show "fst (run_body lower self w) = Inl e"
    and "requested (snd (run_body lower self w)) = requested w @ [base_url self]"
    and "files (snd (run_body lower self w)) = files w"
    by (simp_all add: get_staff_list_world log_world)
qed

lemma run_body_links:
  assumes "ebind (site w (requested w) (base_url self))
             (\<lambda>soup. parse_staff_links soup staff_div_id) = Inr links"
  shows "\<exists>w3. site w3 = site w \<and> requested w3 = requested w @ [base_url self] \<and>
           files w3 = files w \<and> writable w3 = writable w \<and>
           run_body lower self w =
             sbind (get_personal_data lower self links links []) (\<lambda>res.
             sbind (case file_path (options self) of
                      None \<Rightarrow> ret ()
                    | Some path \<Rightarrow>
                        if path \<noteq> [] then Parser_write self path (Some res) else ret ()) (\<lambda>_.
             ret res)) w3"
proof -
  let ?w1 = "snd (log self (Fetching_staff_list (base_url self)) None w)"
  let ?w2 = "snd (get_staff_list self ?w1)"
  let ?w3 = "snd (log self (Staff_members_found (length links)) None
                (snd (log self Blank None ?w2)))"
  have v: "fst (get_staff_list self ?w1) = Inr links"
    using assms by (simp add: get_staff_list_value log_world)
  have "run_body lower self w =
          sbind (get_personal_data lower self links links []) (\<lambda>res.
             sbind (case file_path (options self) of
                      None \<Rightarrow> ret ()
                    | Some path \<Rightarrow>
                        if path \<noteq> [] then Parser_write self path (Some res) else ret ()) (\<lambda>_.
             ret res)) ?w3"
    unfolding run_body_def sbind_log
    by (subst sbind_cases) (simp add: v sbind_log)
  moreover have "site ?w3 = site w" "requested ?w3 = requested w @ [base_url self]"
    "files ?w3 = files w" "writable ?w3 = writable w"
    by (simp_all add: get_staff_list_world log_world)
  ultimately show ?thesis
    by (intro exI [where x = ?w3] conjI)
qed

lemma sbind_ret_value:
  "fst (sbind m (\<lambda>_. ret x) w) = (case fst (m w) of Inl e \<Rightarrow> Inl e | Inr _ \<Rightarrow> Inr x)"
  by (simp add: sbind_cases ret_def split: sum.splits)

lemma run_value:
  "fst (run lower self w) = (case fst (run_body lower self w) of Inl e \<Rightarrow> Inl e | Inr _ \<Rightarrow> Inr ())"
  by (cases "run_body lower self w") (simp add: run_def split: sum.splits)

lemma run_Inl:
  "fst (run_body lower self w) = Inl e \<Longrightarrow>
   run lower self w = (Inl e, self, snd (run_body lower self w))"
  by (cases "run_body lower self w") (simp add: run_def)

lemma run_Inr:
  "fst (run_body lower self w) = Inr res \<Longrightarrow>
   run lower self w = (Inr (), self\<lparr>results := Some res\<rparr>, snd (run_body lower self w))"
  by (cases "run_body lower self w") (simp add: run_def)

text \<open>
  With the links extracted, a run that returns has made a record of every profile, and
  its results are these records in the order of the links.
\<close>

lemma run_records:
  assumes index: "ebind (site w (requested w) (base_url self))
             (\<lambda>soup. parse_staff_links soup staff_div_id) = Inr links"
    and ok: "fst (run lower self w) = Inr ()"
  shows "\<exists>recs. results (fst (snd (run lower self w))) = Some recs \<and>
           length recs = length links \<and>
           (\<forall>i<length links.
              profile_outcome lower (site w) (requested w @ [base_url self]) links i
                = Inr (recs ! i))"
proof -
  from run_body_links [OF index, of lower] obtain w3 where
    w3: "site w3 = site w" "requested w3 = requested w @ [base_url self]"
    and body: "run_body lower self w =
             sbind (get_personal_data lower self links links []) (\<lambda>res.
             sbind (case file_path (options self) of
                      None \<Rightarrow> ret ()
                    | Some path \<Rightarrow>
                        if path \<noteq> [] then Parser_write self path (Some res) else ret ()) (\<lambda>_.
             ret res)) w3"
    by (elim exE conjE)
  let ?g = "get_personal_data lower self links links [] w3"
  from ok obtain res where res: "fst (run_body lower self w) = Inr res"
    by (auto simp: run_value split: sum.splits)
  then obtain out where out: "fst ?g = Inr out"
    unfolding body by (subst (asm) sbind_cases) (auto split: sum.splits)
  have "fst (run_body lower self w) = Inr out \<or> (\<exists>e. fst (run_body lower self w) = Inl e)"
    unfolding body
    by (subst sbind_cases, subst sbind_cases) (auto simp: out sbind_ret_value split: sum.splits)
  with res have "res = out"
    by auto
  from get_personal_data_result [of links links lower self "[]" w3] out
  obtain recs where recs: "out = [] @ recs" "length recs = length links"
    "\<forall>i<length links. profile_outcome lower (site w3) (requested w3) links i = Inr (recs ! i)"
    by auto
  have "results (fst (snd (run lower self w))) = Some recs"
    using run_Inr [OF res] \<open>res = out\<close> recs(1) by simp
  with recs(2,3) show ?thesis
    unfolding w3 by (intro exI [where x = recs] conjI)
qed

text \<open>
  With the links extracted, a run in which profile \<open>i\<close> is the first to fail raises the
  error of that profile, requests nothing after it, leaves the files and the Parser as
  they were.
\<close>

lemma run_profile_error:
  assumes index: "ebind (site w (requested w) (base_url self))
             (\<lambda>soup. parse_staff_links soup staff_div_id) = Inr links"
    and i: "i < length links"
    and fail: "profile_outcome lower (site w) (requested w @ [base_url self]) links i = Inl e"
    and before: "\<forall>j<i. \<exists>r.
        profile_outcome lower (site w) (requested w @ [base_url self]) links j = Inr r"
  shows "\<exists>w'. run lower self w = (Inl e, self, w') \<and> files w' = files w \<and>
           requested w' = requested w @ base_url self #
             map (\<lambda>l. personal_page_prefix @ l) (take (Suc i) links)"
proof -
  from run_body_links [OF index, of lower] obtain w3 where
    w3: "site w3 = site w" "requested w3 = requested w @ [base_url self]"
    and f3: "files w3 = files w"
    and body: "run_body lower self w =
             sbind (get_personal_data lower self links links []) (\<lambda>res.
             sbind (case file_path (options self) of
                      None \<Rightarrow> ret ()
                    | Some path \<Rightarrow>
                        if path \<noteq> [] then Parser_write self path (Some res) else ret ()) (\<lambda>_.
             ret res)) w3"
    by (elim exE conjE)
  let ?g = "get_personal_data lower self links links [] w3"
  let ?o = "profile_outcome lower (site w) (requested w @ [base_url self]) links"
  note L = get_personal_data_result [of links links lower self "[]" w3, unfolded w3]
  have not_ok: "fst ?g \<noteq> Inr out" for out
  proof
    assume "fst ?g = Inr out"
    with L obtain recs where "\<forall>k<length links. ?o k = Inr (recs ! k)"
      by auto
    with i fail show False
      by auto
  qed
  then obtain e' where e': "fst ?g = Inl e'"
    by (cases "fst ?g") auto
  with L obtain i' where i': "i' < length links" "?o i' = Inl e'"
    "\<forall>j<i'. \<exists>r. ?o j = Inr r"
    and rq: "requested (snd ?g) =
      (requested w @ [base_url self]) @ map (\<lambda>l. personal_page_prefix @ l) (take (Suc i') links)"
    by auto
  have "i' = i"
  proof (rule ccontr)
    assume "i' \<noteq> i"
    then consider "i' < i" | "i < i'"
      by linarith
    then show False
    proof cases
      case 1
      with before i'(2) show False by auto
    next
      case 2
      with i'(3) fail show False by auto
    qed
  qed
  with i'(2) fail have "e' = e"
    by simp
  have "run_body lower self w = (Inl e, snd ?g)"
    unfolding body by (subst sbind_cases) (simp add: e' \<open>e' = e\<close>)
  then have "run lower self w = (Inl e, self, snd ?g)"
    using run_Inl [of lower self w e] by simp
  moreover have "files (snd ?g) = files w"
    using get_personal_data_world [of lower self links links "[]" w3] f3 by simp
  moreover have "requested (snd ?g) = requested w @ base_url self #
      map (\<lambda>l. personal_page_prefix @ l) (take (Suc i) links)"
    using rq \<open>i' = i\<close> by simp
  ultimately show ?thesis
    by (intro exI [where x = "snd ?g"] conjI)
qed

text \<open>
  With the links extracted, every profile making a record and no file to write, the run
  returns.
\<close>

lemma run_returns:
  assumes index: "ebind (site w (requested w) (base_url self))
             (\<lambda>soup. parse_staff_links soup staff_div_id) = Inr links"
    and all: "\<forall>i<length links. \<exists>r.
        profile_outcome lower (site w) (requested w @ [base_url self]) links i = Inr r"
    and nofile: "file_path (options self) = None"
  shows "fst (run lower self w) = Inr ()"
proof -
  from run_body_links [OF index, of lower] obtain w3 where
    w3: "site w3 = site w" "requested w3 = requested w @ [base_url self]"
    and body: "run_body lower self w =
             sbind (get_personal_data lower self links links []) (\<lambda>res.
             sbind (case file_path (options self) of
                      None \<Rightarrow> ret ()
                    | Some path \<Rightarrow>
                        if path \<noteq> [] then Parser_write self path (Some res) else ret ()) (\<lambda>_.
             ret res)) w3"
    by (elim exE conjE)
  let ?g = "get_personal_data lower self links links [] w3"
  note L = get_personal_data_result [of links links lower self "[]" w3, unfolded w3]
  have "fst ?g \<noteq> Inl e" for e
  proof
    assume "fst ?g = Inl e"
    with L obtain i where "i < length links"
      "profile_outcome lower (site w) (requested w @ [base_url self]) links i = Inl e"
      by auto
    with all show False
      by auto
  qed
  then obtain out where out: "fst ?g = Inr out"
    by (cases "fst ?g") auto
  have "fst (run_body lower self w) = Inr out"
    unfolding body by (subst sbind_cases) (simp add: out nofile sbind_def ret_def)
  then show ?thesis
    by (simp add: run_value)
qed

lemmas search_defs = find_def find_all_def find_all_sib_def not_None_def attr_is_def
  attr_present_def class_is_def any_attrs_def tag_getitem_def text_of_def

lemma example_index_links:
  "parse_staff_links example_index staff_div_id = Inr [py ''/p/a.htm'', py ''/p/b.htm'']"
  by (simp add: parse_staff_links_def example_index_def staff_div_id_def search_defs py_def)

lemma example_a:
  "personal_record str_lower example_profile_a = Inr example_record_a"
  by (simp add: personal_record_def parse_personal_page_def parse_degree_def
      example_profile_a_def example_record_a_def person_div_id_def search_defs
      transform_full_name_def transform_degree_def degrees_def getitem_def
      str_split.simps isspace_def partition_head_def str_lower_def lower_cp_def
      dict_update_def dict_getitem_def personal_page_prefix_def default_image_def
      py_def Let_def)

section \<open>The record of a profile\<close>

lemma ebind_Inr: "ebind m f = Inr y \<Longrightarrow> \<exists>x. m = Inr x \<and> f x = Inr y"
  by (cases m) simp_all

lemma transform_full_name_shape:
  "transform_full_name full_name = Inr d \<Longrightarrow>
   \<exists>l f m. d = [(''last_name'', PStr l), (''first_name'', PStr f), (''middle_name'', PStr m)]"
  by (auto simp: transform_full_name_def getitem_def Let_def nth_append split: if_splits)

lemma transform_degree_range:
  "transform_degree lower degree_string = Inr d \<Longrightarrow> d \<le> 5"
proof (cases "lower degree_string \<in> set degrees")
  case True
  then obtain i where i: "i < length degrees" "degrees ! i = lower degree_string"
    by (auto simp: in_set_conv_nth)
  assume "transform_degree lower degree_string = Inr d"
  with True have "list_index degrees (degrees ! i) = Inr d"
    by (simp add: transform_degree_def i(2))
  with list_index_nth [OF degrees_distinct i(1)] have "d = i"
    by simp
  with i(1) show ?thesis
    by (simp add: degrees_length)
next
  case False
  assume "transform_degree lower degree_string = Inr d"
  with False show ?thesis
    by (simp add: transform_degree_def degrees_length)
qed

lemma parse_personal_page_img:
  assumes "parse_personal_page soup div_id = Inr (full_name, img, degree_string)"
  shows "\<exists>info. find (py ''div'') (attr_is (py ''id'') div_id) soup = Some info \<and>
           (find (py ''img'') any_attrs info = None \<longrightarrow> img = []) \<and>
           (\<forall>image. find (py ''img'') any_attrs info = Some image \<longrightarrow>
              map_of (attrs image) (py ''src'') = Some img)"
  using assms
  by (auto simp: parse_personal_page_def not_None_def tag_getitem_def Let_def
      dest!: ebind_Inr split: option.splits)

lemma personal_record_Inr:
  assumes "personal_record lower soup = Inr r"
  shows "\<exists>full_name img degree_string l f m d.
           parse_personal_page soup person_div_id = Inr (full_name, img, degree_string) \<and>
           d \<le> 5 \<and>
           r = [(''last_name'', PStr l), (''first_name'', PStr f), (''middle_name'', PStr m),
                (''img'', PStr (if img \<noteq> [] then personal_page_prefix @ img else default_image)),
                (''degree'', PInt (int d))]"
proof -
  from assms obtain full_name img degree_string where
    p: "parse_personal_page soup person_div_id = Inr (full_name, img, degree_string)"
    and 1: "ebind (transform_full_name full_name) (\<lambda>result.
       let personal_image = (if img \<noteq> [] then personal_page_prefix @ img else default_image) in
       ebind (transform_degree lower degree_string) (\<lambda>degree.
       let result = dict_update result
             [(''img'', PStr personal_image), (''degree'', PInt (int degree))] in
       ebind (dict_getitem result ''last_name'') (\<lambda>last_name. Inr result))) = Inr r"
    unfolding personal_record_def by (auto dest!: ebind_Inr)
  from ebind_Inr [OF 1] obtain result where
    n: "transform_full_name full_name = Inr result"
    and 2: "ebind (transform_degree lower degree_string) (\<lambda>degree.
       let result = dict_update result
             [(''img'', PStr (if img \<noteq> [] then personal_page_prefix @ img else default_image)),
              (''degree'', PInt (int degree))] in
       ebind (dict_getitem result ''last_name'') (\<lambda>last_name. Inr result)) = Inr r"
    by (auto simp: Let_def)
  from ebind_Inr [OF 2] obtain d where
    d: "transform_degree lower degree_string = Inr d"
    and 3: "ebind (dict_getitem (dict_update result
             [(''img'', PStr (if img \<noteq> [] then personal_page_prefix @ img else default_image)),
              (''degree'', PInt (int d))]) ''last_name'')
          (\<lambda>last_name. Inr (dict_update result
             [(''img'', PStr (if img \<noteq> [] then personal_page_prefix @ img else default_image)),
              (''degree'', PInt (int d))])) = Inr r"
    by (auto simp: Let_def)
  from transform_full_name_shape [OF n] obtain l f m where
    s: "result = [(''last_name'', PStr l), (''first_name'', PStr f), (''middle_name'', PStr m)]"
    by (elim exE)
  from 3 have "r = [(''last_name'', PStr l), (''first_name'', PStr f), (''middle_name'', PStr m),
                (''img'', PStr (if img \<noteq> [] then personal_page_prefix @ img else default_image)),
                (''degree'', PInt (int d))]"
    unfolding s by (simp add: dict_update_def dict_getitem_def)
  with p transform_degree_range [OF d] show ?thesis
    by (intro exI conjI)
qed

lemma profile_outcome_Inr:
  "profile_outcome lower answer hist links i = Inr r \<Longrightarrow>
   \<exists>soup. personal_record lower soup = Inr r"
  unfolding profile_outcome_def by (auto dest!: ebind_Inr)

lemma run_ok:
  assumes "fst (run lower self w) = Inr ()"
  shows "\<exists>soup links. site w (requested w) (base_url self) = Inr soup \<and>
           parse_staff_links soup staff_div_id = Inr links"
proof (cases "ebind (site w (requested w) (base_url self))
             (\<lambda>soup. parse_staff_links soup staff_div_id)")
  case (Inl e)
  from run_body_index_error(1) [OF Inl, of lower] assms show ?thesis
    by (simp add: run_value)
next
  case (Inr links)
  from ebind_Inr [OF Inr] show ?thesis
    by blast
qed

section \<open>The pipeline\<close>

text \<open>
  C5. When a run returns, the index page was fetched and its links extracted, and
  \<open>self.results\<close> holds exactly one record per link, the record at position \<open>i\<close> being
  the one made of the page fetched for link \<open>i\<close>.
\<close>

theorem run_results_in_order:
  assumes "fst (run lower self w) = Inr ()"
  shows "\<exists>soup links recs.
           site w (requested w) (base_url self) = Inr soup \<and>
           parse_staff_links soup staff_div_id = Inr links \<and>
           results (fst (snd (run lower self w))) = Some recs \<and>
           length recs = length links \<and>
           (\<forall>i<length links.
              profile_outcome lower (site w) (requested w @ [base_url self]) links i
                = Inr (recs ! i))"
proof -
  from run_ok [OF assms] obtain soup links where
    s: "site w (requested w) (base_url self) = Inr soup"
    and l: "parse_staff_links soup staff_div_id = Inr links"
    by (elim exE conjE)
  then have "ebind (site w (requested w) (base_url self))
             (\<lambda>soup. parse_staff_links soup staff_div_id) = Inr links"
    by simp
  from run_records [OF this assms] obtain recs where
    "results (fst (snd (run lower self w))) = Some recs \<and>
     length recs = length links \<and>
     (\<forall>i<length links.
        profile_outcome lower (site w) (requested w @ [base_url self]) links i = Inr (recs ! i))"
    by (elim exE)
  with s l show ?thesis
    by (intro exI [where x = soup] exI [where x = links] exI [where x = recs] conjI) simp_all
qed

lemmas example_defs = example_world_def example_site_def example_options_def Parser_def
  Parser_base_url_def personal_page_prefix_def

lemma example_b:
  "personal_record str_lower example_profile_b = Inr example_record_b"
  by (simp add: personal_record_def parse_personal_page_def parse_degree_def
      example_profile_b_def example_record_b_def person_div_id_def search_defs
      transform_full_name_def transform_degree_def degrees_def getitem_def
      str_split.simps isspace_def partition_head_def str_lower_def lower_cp_def
      dict_update_def dict_getitem_def personal_page_prefix_def default_image_def
      py_def Let_def)

lemma example_x:
  "personal_record str_lower example_profile_x = Inl IndexError"
  by (simp add: personal_record_def parse_personal_page_def parse_degree_def
      example_profile_x_def person_div_id_def search_defs
      transform_full_name_def getitem_def
      str_split.simps isspace_def partition_head_def
      py_def Let_def)

lemma example_run_returns:
  "fst (run str_lower (Parser None (example_options None)) example_world) = Inr ()"
proof (rule run_returns [where links = "[py ''/p/a.htm'', py ''/p/b.htm'']"])
  show "ebind (site example_world (requested example_world)
           (base_url (Parser None (example_options None))))
         (\<lambda>soup. parse_staff_links soup staff_div_id) = Inr [py ''/p/a.htm'', py ''/p/b.htm'']"
    by (simp add: example_defs example_index_links)
  show "\<forall>i<length [py ''/p/a.htm'', py ''/p/b.htm'']. \<exists>r.
      profile_outcome str_lower (site example_world)
        (requested example_world @ [base_url (Parser None (example_options None))])
        [py ''/p/a.htm'', py ''/p/b.htm''] i = Inr r"
    by (simp add: All_less_Suc profile_outcome_def example_defs example_a example_b py_def)
  show "file_path (options (Parser None (example_options None))) = None"
    by (simp add: example_defs)
qed

text \<open>
  The run over the example site returns, and its results are the records of profiles
  \<open>a\<close> and \<open>b\<close>, in the order of the index page.
\<close>

theorem run_results_in_order_witness:
  "fst (run str_lower (Parser None (example_options None)) example_world) = Inr () \<and>
   results (fst (snd (run str_lower (Parser None (example_options None)) example_world)))
     = Some [example_record_a, example_record_b]"
proof -
  let ?P = "Parser None (example_options None)"
  have h: "fst (run str_lower ?P example_world) = Inr ()"
    by (rule example_run_returns)
  from run_results_in_order [OF h] obtain soup links recs where
    s: "site example_world (requested example_world) (base_url ?P) = Inr soup"
    and l: "parse_staff_links soup staff_div_id = Inr links"
    and r: "results (fst (snd (run str_lower ?P example_world))) = Some recs"
    and n: "length recs = length links"
    and o: "\<forall>i<length links.
              profile_outcome str_lower (site example_world)
                (requested example_world @ [base_url ?P]) links i = Inr (recs ! i)"
    by (elim exE conjE)
  from s have "soup = example_index"
    by (simp add: example_defs)
  with l have links: "links = [py ''/p/a.htm'', py ''/p/b.htm'']"
    by (simp add: example_index_links)
  from o have "recs ! 0 = example_record_a" "recs ! 1 = example_record_b"
    unfolding links
    by (simp_all add: All_less_Suc profile_outcome_def example_defs example_a example_b py_def)
  moreover from n have "length recs = 2"
    by (simp add: links)
  ultimately have "recs = [example_record_a, example_record_b]"
    by (simp add: list_eq_iff_nth_eq All_less_Suc numeral_2_eq_2)
  with h r show ?thesis
    by simp
qed

text \<open>
  C9. Every record \<open>get_personal_page\<close> returns, whether the run goes on to its end or
  not, has the five fields \<open>last_name\<close>, \<open>first_name\<close>, \<open>middle_name\<close>, \<open>img\<close>,
  \<open>degree\<close> and no other; the first four hold strings, and \<open>degree\<close> holds an integer
  from 0 to 5.
\<close>

theorem get_personal_page_fields:
  assumes "fst (get_personal_page lower self personal_page_suffix index w) = Inr r"
  shows "\<exists>l f m i d.
           r = [(''last_name'', PStr l), (''first_name'', PStr f), (''middle_name'', PStr m),
                (''img'', PStr i), (''degree'', PInt d)] \<and> 0 \<le> d \<and> d \<le> 5"
proof -
  from assms have "ebind (site w (requested w) (personal_page_prefix @ personal_page_suffix))
      (personal_record lower) = Inr r"
    by (simp add: get_personal_page_value)
  from ebind_Inr [OF this] obtain page where "personal_record lower page = Inr r"
    by (elim exE conjE)
  from personal_record_Inr [OF this] obtain img l f m d where "d \<le> 5"
    "r = [(''last_name'', PStr l), (''first_name'', PStr f), (''middle_name'', PStr m),
          (''img'', PStr (if img \<noteq> [] then personal_page_prefix @ img else default_image)),
          (''degree'', PInt (int d))]"
    by (elim exE conjE)
  then have "r = [(''last_name'', PStr l), (''first_name'', PStr f), (''middle_name'', PStr m),
          (''img'', PStr (if img \<noteq> [] then personal_page_prefix @ img else default_image)),
          (''degree'', PInt (int d))] \<and> 0 \<le> int d \<and> int d \<le> 5"
    by simp
  then show ?thesis
    by (intro exI)
qed

text \<open>The record of profile \<open>a\<close>, whose degree is 2.\<close>

theorem get_personal_page_fields_witness:
  "fst (get_personal_page str_lower (Parser None (example_options None))
          (py ''/p/a.htm'') 0 example_world)
     = Inr [(''last_name'', PStr (py ''Ivanov'')),
            (''first_name'', PStr (py ''Ivan'')),
            (''middle_name'', PStr (py ''Ivanovich'')),
            (''img'', PStr (py ''http://www.bseu.by/img/a.png'')),
            (''degree'', PInt 2)] \<and>
   (0::int) \<le> 2 \<and> (2::int) \<le> 5"
proof -
  have "site example_world (requested example_world) (personal_page_prefix @ py ''/p/a.htm'')
      = Inr example_profile_a"
    by (simp add: example_defs py_def)
  then have h: "fst (get_personal_page str_lower (Parser None (example_options None))
          (py ''/p/a.htm'') 0 example_world) = Inr example_record_a"
    by (simp add: get_personal_page_value example_a)
  from get_personal_page_fields [OF h] obtain l f m i d where
    r: "example_record_a =
          [(''last_name'', PStr l), (''first_name'', PStr f), (''middle_name'', PStr m),
           (''img'', PStr i), (''degree'', PInt d)]"
    and d: "0 \<le> d" "d \<le> 5"
    by (elim exE conjE)
  from r have "d = 2"
    by (simp add: example_record_a_def)
  with d have "(0::int) \<le> 2 \<and> (2::int) \<le> 5"
    by simp
  with h show ?thesis
    by (simp add: example_record_a_def)
qed

text \<open>The records in the results of a run that returned are such records.\<close>

lemma run_results_fields:
  assumes "fst (run lower self w) = Inr ()"
  shows "\<exists>recs. results (fst (snd (run lower self w))) = Some recs \<and>
           (\<forall>r\<in>set recs. \<exists>l f m i d.
              r = [(''last_name'', PStr l), (''first_name'', PStr f), (''middle_name'', PStr m),
                   (''img'', PStr i), (''degree'', PInt d)] \<and> 0 \<le> d \<and> d \<le> 5)"
proof -
  from run_ok [OF assms] obtain soup links where
    "site w (requested w) (base_url self) = Inr soup"
    "parse_staff_links soup staff_div_id = Inr links"
    by (elim exE conjE)
  then have "ebind (site w (requested w) (base_url self))
             (\<lambda>soup. parse_staff_links soup staff_div_id) = Inr links"
    by simp
  from run_records [OF this assms] obtain recs where
    r: "results (fst (snd (run lower self w))) = Some recs"
    and n: "length recs = length links"
    and o: "\<forall>i<length links.
        profile_outcome lower (site w) (requested w @ [base_url self]) links i = Inr (recs ! i)"
    by (elim exE conjE)
  have "\<exists>l f m i d.
          r = [(''last_name'', PStr l), (''first_name'', PStr f), (''middle_name'', PStr m),
               (''img'', PStr i), (''degree'', PInt d)] \<and> 0 \<le> d \<and> d \<le> 5"
    if "r \<in> set recs" for r
  proof -
    from that obtain k where k: "k < length recs" "recs ! k = r"
      by (auto simp: in_set_conv_nth)
    with o n have "profile_outcome lower (site w) (requested w @ [base_url self]) links k = Inr r"
      by simp
    from profile_outcome_Inr [OF this] obtain page where "personal_record lower page = Inr r"
      by (elim exE)
    from personal_record_Inr [OF this] obtain img l f m d where "d \<le> 5"
      "r = [(''last_name'', PStr l), (''first_name'', PStr f), (''middle_name'', PStr m),
            (''img'', PStr (if img \<noteq> [] then personal_page_prefix @ img else default_image)),
            (''degree'', PInt (int d))]"
      by (elim exE conjE)
    then have "r = [(''last_name'', PStr l), (''first_name'', PStr f), (''middle_name'', PStr m),
            (''img'', PStr (if img \<noteq> [] then personal_page_prefix @ img else default_image)),
            (''degree'', PInt (int d))] \<and> 0 \<le> int d \<and> int d \<le> 5"
      by simp
    then show ?thesis
      by (intro exI)
  qed
  with r show ?thesis
    by (intro exI [where x = recs] conjI ballI)
qed

text \<open>
  C7. When the index document holds no element with the identifier \<open>Pages\<close>, the
  extraction of the links raises AttributeError, on the search below the missing
  container; the run raises it, having requested the index page and nothing else.
\<close>

theorem run_without_container:
  assumes "site w (requested w) (base_url self) = Inr soup"
    and "\<forall>e\<in>set (elements soup). map_of (attrs e) (py ''id'') \<noteq> Some staff_div_id"
  shows "parse_staff_links soup staff_div_id = Inl AttributeError \<and>
         (\<exists>w'. run lower self w = (Inl AttributeError, self, w') \<and>
                requested w' = requested w @ [base_url self] \<and> files w' = files w)"
proof -
  have "find (py ''div'') (attr_is (py ''id'') staff_div_id) soup = None"
    unfolding find_None using assms(2) by (simp add: attr_is_def)
  then have p: "parse_staff_links soup staff_div_id = Inl AttributeError"
    by (simp add: parse_staff_links_def not_None_def)
  with assms(1) have i: "ebind (site w (requested w) (base_url self))
             (\<lambda>soup. parse_staff_links soup staff_div_id) = Inl AttributeError"
    by simp
  have "run lower self w = (Inl AttributeError, self, snd (run_body lower self w))"
    by (rule run_Inl) (rule run_body_index_error(1) [OF i])
  moreover note run_body_index_error(2,3) [OF i, of lower]
  ultimately have "\<exists>w'. run lower self w = (Inl AttributeError, self, w') \<and>
                requested w' = requested w @ [base_url self] \<and> files w' = files w"
    by (intro exI [where x = "snd (run_body lower self w)"] conjI)
  with p show ?thesis
    by (rule conjI)
qed

theorem run_without_container_witness:
  "site example_world (requested example_world)
     (base_url (Parser (Some (py ''http://www.bseu.by/none'')) (example_options None)))
     = Inr example_index_none \<and>
   map (\<lambda>e. map_of (attrs e) (py ''id'')) (elements example_index_none)
     = [Some (py ''Staff''), None] \<and>
   parse_staff_links example_index_none staff_div_id = Inl AttributeError \<and>
   (\<exists>w'. run str_lower (Parser (Some (py ''http://www.bseu.by/none'')) (example_options None))
            example_world
          = (Inl AttributeError,
             Parser (Some (py ''http://www.bseu.by/none'')) (example_options None), w') \<and>
          requested w' = requested example_world @
            [base_url (Parser (Some (py ''http://www.bseu.by/none'')) (example_options None))] \<and>
          files w' = files example_world)"
proof -
  let ?P = "Parser (Some (py ''http://www.bseu.by/none'')) (example_options None)"
  have 1: "site example_world (requested example_world) (base_url ?P) = Inr example_index_none"
    by (simp add: example_defs py_def)
  have 2: "\<forall>e\<in>set (elements example_index_none).
             map_of (attrs e) (py ''id'') \<noteq> Some staff_div_id"
    by (simp add: example_index_none_def elements_def staff_div_id_def py_def)
  have 3: "map (\<lambda>e. map_of (attrs e) (py ''id'')) (elements example_index_none)
     = [Some (py ''Staff''), None]"
    by (simp add: example_index_none_def elements_def py_def)
  from run_without_container [OF 1 2, of str_lower] 1 3 show ?thesis
    by (intro conjI) simp_all
qed

text \<open>
  C8, as the code has it. When the index was fetched and its links extracted, and some
  profile fails, the run raises the error of the first profile that fails: nothing in
  the pipeline catches it. No request is made after the one for that profile, the files
  are as they were, and the Parser is as it was (\<open>self.results\<close> is not assigned, the
  records made so far are dropped). The console is left out: what was logged before
  the failure has been printed.
\<close>

theorem run_aborts_on_profile_error:
  assumes "site w (requested w) (base_url self) = Inr soup"
    and "parse_staff_links soup staff_div_id = Inr links"
    and "i < length links"
    and "profile_outcome lower (site w) (requested w @ [base_url self]) links i = Inl e"
  shows "\<exists>e' k w'. run lower self w = (Inl e', self, w') \<and> files w' = files w \<and>
           k \<le> i \<and>
           profile_outcome lower (site w) (requested w @ [base_url self]) links k = Inl e' \<and>
           (\<forall>j<k. \<exists>r.
              profile_outcome lower (site w) (requested w @ [base_url self]) links j = Inr r) \<and>
           requested w' = requested w @ base_url self #
             map (\<lambda>l. personal_page_prefix @ l) (take (Suc k) links)"
proof -
  let ?o = "profile_outcome lower (site w) (requested w @ [base_url self]) links"
  define k where "k = (LEAST k. \<exists>e'. ?o k = Inl e')"
  have ex: "\<exists>e'. ?o i = Inl e'"
    using assms(4) by (rule exI)
  have "\<exists>e'. ?o k = Inl e'"
    unfolding k_def using ex by (rule LeastI)
  then obtain e' where e': "?o k = Inl e'"
    by (elim exE)
  have ki: "k \<le> i"
    unfolding k_def using ex by (rule Least_le)
  have before: "\<forall>j<k. \<exists>r. ?o j = Inr r"
  proof (intro allI impI)
    fix j assume "j < k"
    then have "\<not> (\<exists>e'. ?o j = Inl e')"
      unfolding k_def by (rule not_less_Least)
    then show "\<exists>r. ?o j = Inr r"
      by (cases "?o j") auto
  qed
  have index: "ebind (site w (requested w) (base_url self))
             (\<lambda>soup. parse_staff_links soup staff_div_id) = Inr links"
    using assms(1,2) by simp
  have "k < length links"
    using ki assms(3) by simp
  from run_profile_error [OF index this e' before, of ] obtain w' where
    "run lower self w = (Inl e', self, w')" "files w' = files w"
    "requested w' = requested w @ base_url self #
       map (\<lambda>l. personal_page_prefix @ l) (take (Suc k) links)"
    by (elim exE conjE)
  with ki e' before show ?thesis
    by (intro exI [where x = e'] exI [where x = k] exI [where x = w'] conjI)
qed

text \<open>
  The index \<open>/bad\<close> lists profile \<open>x\<close>, whose name has one token, between \<open>a\<close> and \<open>b\<close>;
  an output file is configured. The run raises the IndexError of \<open>x\<close>; profile \<open>b\<close> is
  never requested and no file exists afterwards.
\<close>

theorem run_aborts_on_profile_error_witness:
  "fst (run str_lower
          (Parser (Some (py ''http://www.bseu.by/bad'')) (example_options (Some (py ''out.json''))))
          example_world) = Inl IndexError \<and>
   fst (snd (run str_lower
          (Parser (Some (py ''http://www.bseu.by/bad'')) (example_options (Some (py ''out.json''))))
          example_world))
     = Parser (Some (py ''http://www.bseu.by/bad'')) (example_options (Some (py ''out.json''))) \<and>
   files (snd (snd (run str_lower
          (Parser (Some (py ''http://www.bseu.by/bad'')) (example_options (Some (py ''out.json''))))
          example_world))) = Map.empty \<and>
   requested (snd (snd (run str_lower
          (Parser (Some (py ''http://www.bseu.by/bad'')) (example_options (Some (py ''out.json''))))
          example_world)))
     = [py ''http://www.bseu.by/bad'', py ''http://www.bseu.by/p/a.htm'',
        py ''http://www.bseu.by/p/x.htm'']"
proof -
  let ?P = "Parser (Some (py ''http://www.bseu.by/bad'')) (example_options (Some (py ''out.json'')))"
  let ?links = "[py ''/p/a.htm'', py ''/p/x.htm'', py ''/p/b.htm'']"
  let ?o = "profile_outcome str_lower (site example_world)
              (requested example_world @ [base_url ?P]) ?links"
  have 1: "site example_world (requested example_world) (base_url ?P) = Inr example_index_bad"
    by (simp add: example_defs py_def)
  have 2: "parse_staff_links example_index_bad staff_div_id = Inr ?links"
    by (simp add: parse_staff_links_def example_index_bad_def staff_div_id_def search_defs py_def)
  have 3: "1 < length ?links"
    by simp
  have o0: "?o 0 = Inr example_record_a"
    by (simp add: profile_outcome_def example_defs example_a py_def)
  have 4: "?o 1 = Inl IndexError"
    by (simp add: profile_outcome_def example_defs example_x py_def)
  from run_aborts_on_profile_error [OF 1 2 3 4] obtain e' k w' where
    r: "run str_lower ?P example_world = (Inl e', ?P, w')"
    and f: "files w' = files example_world"
    and k: "k \<le> 1" "?o k = Inl e'"
    and q: "requested w' = requested example_world @ base_url ?P #
             map (\<lambda>l. personal_page_prefix @ l) (take (Suc k) ?links)"
    by (elim exE conjE)
  from k o0 have "k = 1"
    by (cases "k = 0") auto
  with k(2) 4 have "e' = IndexError"
    by simp
  from q have "requested w' = [py ''http://www.bseu.by/bad'', py ''http://www.bseu.by/p/a.htm'',
        py ''http://www.bseu.by/p/x.htm'']"
    unfolding \<open>k = 1\<close> by (simp add: example_defs py_def)
  moreover from f have "files w' = Map.empty"
    by (simp add: example_defs)
  ultimately show ?thesis
    using r \<open>e' = IndexError\<close> by simp
qed

text \<open>
  C8 as stated fails: the same run, in verbose mode, leaves output behind. When it
  raises, the record of profile \<open>a\<close> is on the console, printed by \<open>log_data\<close>.
\<close>

theorem run_prints_before_error:
  "fst (run str_lower
          (Parser (Some (py ''http://www.bseu.by/bad'')) (example_options (Some (py ''out.json''))))
          example_world) = Inl IndexError \<and>
   console example_world = [] \<and>
   console (snd (snd (run str_lower
          (Parser (Some (py ''http://www.bseu.by/bad'')) (example_options (Some (py ''out.json''))))
          example_world)))
     = [Message (Fetching_staff_list (py ''http://www.bseu.by/bad'')),
        Message (Fetching_a_staff_list (py ''http://www.bseu.by/bad'')),
        Message (Fetched_a_staff_list 3),
        Message Blank,
        Message (Staff_members_found 3),
        Message (Fetching_the_staff_member 1 (py ''http://www.bseu.by/p/a.htm'')),
        Message (Fetched_a_staff_member (PStr (py ''Ivanov''))),
        Data False example_record_a,
        Message (Fetching_the_staff_member 2 (py ''http://www.bseu.by/p/x.htm''))]"
proof -
  let ?P = "Parser (Some (py ''http://www.bseu.by/bad'')) (example_options (Some (py ''out.json'')))"
  have links: "parse_staff_links example_index_bad staff_div_id
      = Inr [py ''/p/a.htm'', py ''/p/x.htm'', py ''/p/b.htm'']"
    by (simp add: parse_staff_links_def example_index_bad_def staff_div_id_def search_defs py_def)
  have a: "parse_personal_page example_profile_a person_div_id
      = Inr (py ''Ivanov Ivan  Ivanovich'', py ''/img/a.png'',
             [0x414, 0x43E, 0x446, 0x435, 0x43D, 0x442])"
    by (simp add: parse_personal_page_def parse_degree_def example_profile_a_def
        person_div_id_def search_defs str_split.simps isspace_def partition_head_def py_def)
  have x: "parse_personal_page example_profile_x person_div_id
      = Inr (py ''Sidorov'', [], py ''lecturer'')"
    by (simp add: parse_personal_page_def parse_degree_def example_profile_x_def
        person_div_id_def search_defs str_split.simps isspace_def partition_head_def py_def)
  have "run str_lower ?P example_world =
      (Inl IndexError, ?P,
       \<lparr>site = example_site, writable = (\<lambda>path. True),
        requested = [py ''http://www.bseu.by/bad'', py ''http://www.bseu.by/p/a.htm'',
                     py ''http://www.bseu.by/p/x.htm''],
        console =
          [Message (Fetching_staff_list (py ''http://www.bseu.by/bad'')),
           Message (Fetching_a_staff_list (py ''http://www.bseu.by/bad'')),
           Message (Fetched_a_staff_list 3),
           Message Blank,
           Message (Staff_members_found 3),
           Message (Fetching_the_staff_member 1 (py ''http://www.bseu.by/p/a.htm'')),
           Message (Fetched_a_staff_member (PStr (py ''Ivanov''))),
           Data False example_record_a,
           Message (Fetching_the_staff_member 2 (py ''http://www.bseu.by/p/x.htm''))],
        files = Map.empty\<rparr>)"
    by (simp add: run_def run_body_def get_staff_list_def get_personal_page_def
        get_html_parser_def log_def log_data_def print_def sbind_def lift_def ret_def
        example_world_def example_options_def Parser_def example_site_def
        links a x transform_full_name_def getitem_def str_split.simps isspace_def
        transform_degree_def degrees_def str_lower_def lower_cp_def
        dict_update_def dict_getitem_def example_record_a_def
        personal_page_prefix_def default_image_def py_def Let_def)
  then show ?thesis
    by (simp add: example_world_def)
qed

text \<open>
  C10. On a Parser whose \<open>results\<close> attribute was never assigned, with an output file
  configured, a run whose index page has a container without links raises
  AttributeError and writes no file: \<open>Parser.write\<close> takes the empty list for a missing
  argument and reads \<open>self.results\<close>, which \<open>run\<close> assigns only afterwards.
\<close>

theorem run_empty_results_with_file:
  assumes "results self = None"
    and "file_path (options self) = Some path" and "path \<noteq> []"
    and "site w (requested w) (base_url self) = Inr soup"
    and "parse_staff_links soup staff_div_id = Inr []"
  shows "\<exists>w'. run lower self w = (Inl AttributeError, self, w') \<and> files w' = files w"
proof -
  have index: "ebind (site w (requested w) (base_url self))
             (\<lambda>soup. parse_staff_links soup staff_div_id) = Inr []"
    using assms(4,5) by simp
  from run_body_links [OF index, of lower] obtain w3 where
    f3: "files w3 = files w"
    and body: "run_body lower self w =
             sbind (get_personal_data lower self [] [] []) (\<lambda>res.
             sbind (case file_path (options self) of
                      None \<Rightarrow> ret ()
                    | Some path \<Rightarrow>
                        if path \<noteq> [] then Parser_write self path (Some res) else ret ()) (\<lambda>_.
             ret res)) w3"
    by (elim exE conjE)
  have "run_body lower self w = (Inl AttributeError, w3)"
    unfolding body
    by (simp add: sbind_def ret_def assms(2,3) Parser_write_empty [OF assms(1)])
  then have "run lower self w = (Inl AttributeError, self, w3)"
    using run_Inl [of lower self w AttributeError] by simp
  with f3 show ?thesis
    by (intro exI [where x = w3] conjI)
qed

theorem run_empty_results_with_file_witness:
  "results (Parser (Some (py ''http://www.bseu.by/empty''))
      (example_options (Some (py ''out.json'')))) = None \<and>
   file_path (options (Parser (Some (py ''http://www.bseu.by/empty''))
      (example_options (Some (py ''out.json''))))) = Some (py ''out.json'') \<and>
   py ''out.json'' \<noteq> [] \<and>
   site example_world (requested example_world)
     (base_url (Parser (Some (py ''http://www.bseu.by/empty''))
        (example_options (Some (py ''out.json''))))) = Inr example_index_empty \<and>
   parse_staff_links example_index_empty staff_div_id = Inr [] \<and>
   fst (run str_lower (Parser (Some (py ''http://www.bseu.by/empty''))
          (example_options (Some (py ''out.json'')))) example_world) = Inl AttributeError \<and>
   files (snd (snd (run str_lower (Parser (Some (py ''http://www.bseu.by/empty''))
          (example_options (Some (py ''out.json'')))) example_world))) = Map.empty"
proof -
  let ?P = "Parser (Some (py ''http://www.bseu.by/empty'')) (example_options (Some (py ''out.json'')))"
  have 1: "results ?P = None"
    by (simp add: Parser_def)
  have 2: "file_path (options ?P) = Some (py ''out.json'')"
    by (simp add: example_defs)
  have 3: "py ''out.json'' \<noteq> []"
    by (simp add: py_def)
  have 4: "site example_world (requested example_world) (base_url ?P) = Inr example_index_empty"
    by (simp add: example_defs py_def)
  have 5: "parse_staff_links example_index_empty staff_div_id = Inr []"
    by (simp add: parse_staff_links_def example_index_empty_def staff_div_id_def search_defs
        py_def)
  from run_empty_results_with_file [OF 1 2 3 4 5, of str_lower] obtain w' where
    "run str_lower ?P example_world = (Inl AttributeError, ?P, w')" "files w' = files example_world"
    by (elim exE conjE)
  then have "fst (run str_lower ?P example_world) = Inl AttributeError"
    "files (snd (snd (run str_lower ?P example_world))) = Map.empty"
    by (simp_all add: example_defs)
  with 1 2 3 4 5 show ?thesis
    by (intro conjI)
qed

section \<open>The photo\<close>

text \<open>
  C6, as the code has it. Let \<open>get_personal_page\<close> return a record for a page whose info
  container is \<open>info\<close>. When no element below \<open>info\<close> is an image, the record's \<open>img\<close> is
  the default placeholder. When there is one, with \<open>src\<close> the source path of the first,
  \<open>img\<close> is the site prefix followed by \<open>src\<close> if \<open>src\<close> is not empty, and the default
  placeholder if it is empty.
\<close>

theorem get_personal_page_img:
  assumes "site w (requested w) (personal_page_prefix @ suffix) = Inr soup"
    and "find (py ''div'') (attr_is (py ''id'') person_div_id) soup = Some info"
    and "fst (get_personal_page lower self suffix index w) = Inr r"
  shows "((\<forall>e\<in>set (elements info). name e \<noteq> py ''img'') \<longrightarrow>
            map_of r ''img'' = Some (PStr default_image)) \<and>
         (\<forall>image src. find (py ''img'') any_attrs info = Some image \<longrightarrow>
            map_of (attrs image) (py ''src'') = Some src \<longrightarrow>
            map_of r ''img'' =
              Some (PStr (if src = [] then default_image else personal_page_prefix @ src)))"
proof -
  from assms(1,3) have "personal_record lower soup = Inr r"
    by (simp add: get_personal_page_value)
  from personal_record_Inr [OF this] obtain full_name img degree_string l f m d where
    p: "parse_personal_page soup person_div_id = Inr (full_name, img, degree_string)"
    and r: "r = [(''last_name'', PStr l), (''first_name'', PStr f), (''middle_name'', PStr m),
            (''img'', PStr (if img \<noteq> [] then personal_page_prefix @ img else default_image)),
            (''degree'', PInt (int d))]"
    by (elim exE conjE)
  from parse_personal_page_img [OF p] assms(2)
  have none: "find (py ''img'') any_attrs info = None \<longrightarrow> img = []"
    and some: "\<forall>image. find (py ''img'') any_attrs info = Some image \<longrightarrow>
              map_of (attrs image) (py ''src'') = Some img"
    by auto
  have i: "map_of r ''img'' =
      Some (PStr (if img \<noteq> [] then personal_page_prefix @ img else default_image))"
    unfolding r by simp
  show ?thesis
  proof (intro conjI allI impI)
    assume "\<forall>e\<in>set (elements info). name e \<noteq> py ''img''"
    then have "find (py ''img'') any_attrs info = None"
      by (simp add: find_None)
    with none i show "map_of r ''img'' = Some (PStr default_image)"
      by simp
  next
    fix image src
    assume "find (py ''img'') any_attrs info = Some image"
      and "map_of (attrs image) (py ''src'') = Some src"
    with some have "img = src"
      by simp
    with i show "map_of r ''img'' =
        Some (PStr (if src = [] then default_image else personal_page_prefix @ src))"
      by simp
  qed
qed

text \<open>
  Profile \<open>b\<close> has no image and gets the placeholder; profile \<open>a\<close> has the photo
  \<open>/img/a.png\<close> and gets its address on the site.
\<close>

theorem get_personal_page_img_witness:
  "fst (get_personal_page str_lower (Parser None (example_options None))
          (py ''/p/b.htm'') 1 example_world) = Inr example_record_b \<and>
   map_of example_record_b ''img'' = Some (PStr default_image) \<and>
   fst (get_personal_page str_lower (Parser None (example_options None))
          (py ''/p/a.htm'') 0 example_world) = Inr example_record_a \<and>
   map_of example_record_a ''img'' = Some (PStr (personal_page_prefix @ py ''/img/a.png''))"
proof -
  let ?P = "Parser None (example_options None)"
  let ?info_a = "Tag (py ''div'') [(py ''id'', py ''persinfo'')]
        [Element (Tag (py ''img'') [(py ''src'', py ''/img/a.png'')] []),
         Element (Tag (py ''h4'') [] [NavigableString (py ''Ivanov Ivan  Ivanovich'')]),
         Element (Tag (py ''p'') [(py ''class'', py ''noIndnt'')]
           [Element (Tag (py ''b'') [] [NavigableString (py ''Ivanov'')]),
            Element (Tag (py ''br'') [] []),
            NavigableString ([0x414, 0x43E, 0x446, 0x435, 0x43D, 0x442, 0xA0] @ py ''dept'')])]"
  let ?info_b = "Tag (py ''div'') [(py ''id'', py ''persinfo'')]
        [Element (Tag (py ''h4'') [] [NavigableString (py ''Petrov Petr'')]),
         Element (Tag (py ''p'') [(py ''class'', py ''small noIndnt'')]
           [Element (Tag (py ''br'') [] []),
            NavigableString (py ''lecturer'')])]"
  have b1: "site example_world (requested example_world) (personal_page_prefix @ py ''/p/b.htm'')
      = Inr example_profile_b"
    by (simp add: example_defs py_def)
  have b2: "find (py ''div'') (attr_is (py ''id'') person_div_id) example_profile_b = Some ?info_b"
    by (simp add: example_profile_b_def person_div_id_def search_defs py_def)
  have b3: "fst (get_personal_page str_lower ?P (py ''/p/b.htm'') 1 example_world)
      = Inr example_record_b"
    by (simp add: get_personal_page_value b1 example_b)
  have b4: "\<forall>e\<in>set (elements ?info_b). name e \<noteq> py ''img''"
    by (simp add: elements_def py_def)
  have a1: "site example_world (requested example_world) (personal_page_prefix @ py ''/p/a.htm'')
      = Inr example_profile_a"
    by (simp add: example_defs py_def)
  have a2: "find (py ''div'') (attr_is (py ''id'') person_div_id) example_profile_a = Some ?info_a"
    by (simp add: example_profile_a_def person_div_id_def search_defs py_def)
  have a3: "fst (get_personal_page str_lower ?P (py ''/p/a.htm'') 0 example_world)
      = Inr example_record_a"
    by (simp add: get_personal_page_value a1 example_a)
  have a4: "find (py ''img'') any_attrs ?info_a
      = Some (Tag (py ''img'') [(py ''src'', py ''/img/a.png'')] [])"
    by (simp add: search_defs py_def)
  have a5: "map_of (attrs (Tag (py ''img'') [(py ''src'', py ''/img/a.png'')] [])) (py ''src'')
      = Some (py ''/img/a.png'')"
    by simp
  have a6: "py ''/img/a.png'' \<noteq> []"
    by (simp add: py_def)
  from get_personal_page_img [OF b1 b2 b3] b4
  have "map_of example_record_b ''img'' = Some (PStr default_image)"
    by (elim conjE impE)
  moreover from get_personal_page_img [OF a1 a2 a3] a4 a5 a6
  have "map_of example_record_a ''img'' = Some (PStr (personal_page_prefix @ py ''/img/a.png''))"
    by auto
  ultimately show ?thesis
    using a3 b3 by (intro conjI)
qed

text \<open>
  C6 as stated fails: profile \<open>c\<close> has an image element, with an empty source path, and
  its record holds the placeholder, not the site prefix followed by that path.
\<close>

theorem get_personal_page_img_empty_src:
  "map name (elements example_profile_c) = [py ''div'', py ''img'', py ''h4'', py ''p'', py ''br''] \<and>
   site example_world (requested example_world) (personal_page_prefix @ py ''/p/c.htm'')
     = Inr example_profile_c \<and>
   fst (get_personal_page str_lower (Parser None (example_options None))
          (py ''/p/c.htm'') 0 example_world)
     = Inr [(''last_name'', PStr (py ''Petrov'')),
            (''first_name'', PStr (py ''Petr'')),
            (''middle_name'', PStr []),
            (''img'', PStr default_image),
            (''degree'', PInt 5)] \<and>
   default_image \<noteq> personal_page_prefix @ []"
proof -
  have 1: "site example_world (requested example_world) (personal_page_prefix @ py ''/p/c.htm'')
     = Inr example_profile_c"
    by (simp add: example_defs py_def)
  have 2: "personal_record str_lower example_profile_c
     = Inr [(''last_name'', PStr (py ''Petrov'')),
            (''first_name'', PStr (py ''Petr'')),
            (''middle_name'', PStr []),
            (''img'', PStr default_image),
            (''degree'', PInt 5)]"
    by (simp add: personal_record_def parse_personal_page_def parse_degree_def
      example_profile_c_def person_div_id_def search_defs
      transform_full_name_def transform_degree_def degrees_def getitem_def
      str_split.simps isspace_def partition_head_def str_lower_def lower_cp_def
      dict_update_def dict_getitem_def personal_page_prefix_def default_image_def
      py_def Let_def)
  have 3: "map name (elements example_profile_c)
     = [py ''div'', py ''img'', py ''h4'', py ''p'', py ''br'']"
    by (simp add: example_profile_c_def elements_def)
  have 4: "default_image \<noteq> personal_page_prefix @ []"
    by (simp add: default_image_def personal_page_prefix_def py_def)
  from 1 2 3 4 show ?thesis
    by (simp add: get_personal_page_value)
qed

end
